theory Spec2Isabelle
  imports Complex_Main
begin

section \<open>Python values, errors and the artifact file\<close>

text \<open>
  Exceptions of the source are values. Every \<open>raise\<close> of the code and of the library
  calls it makes is a branch that returns \<open>Inl\<close> of one of these.
\<close>

datatype error =
    ValueError string
  | KeyError string
  | TypeError string
  | AttributeError string
  | FileNotFoundError string
  | IndexError string
  | UnpicklingError
  | OverflowError string

text \<open>
  The fitted \<open>StandardScaler\<close>: one mean and one scale per feature column, the
  attributes \<open>mean_\<close> and \<open>scale_\<close> of the library object.
\<close>

record scaler_params =
  sc_mean :: "real list"
  sc_scale :: "real list"

text \<open>
  What an attribute of the model object, or an unpickled file, can hold. The regression
  ensemble is a library object of type \<open>'m\<close>; \<open>VModel None\<close> and \<open>VScaler None\<close> are
  the constructed but not yet fitted estimators.
\<close>

datatype 'm pyval =
    VNone
  | VStr string
  | VModel "'m option"
  | VScaler "scaler_params option"
  | VDict "(string \<times> 'm pyval) list"

text \<open>A file either unpickles to a value or holds bytes that \<open>pickle.load\<close> rejects.\<close>

datatype 'm blob = Garbage | Pickled "'m pyval"

type_synonym 'm filesystem = "string \<Rightarrow> 'm blob option"

record 'm pricing_model =
  model_path :: string
  model :: "'m pyval"
  scaler :: "'m pyval"
  is_trained :: bool

text \<open>\<open>DynamicPricingModel.__init__\<close>\<close>

definition init_model :: "string \<Rightarrow> 'm pricing_model" where
  "init_model path = \<lparr>model_path = path, model = VNone, scaler = VNone, is_trained = False\<rparr>"

text \<open>\<open>open(path, 'rb')\<close> followed by \<open>pickle.load\<close>.\<close>

definition open_rb :: "'m filesystem \<Rightarrow> string \<Rightarrow> error + 'm blob" where
  "open_rb fs path = (case fs path of None \<Rightarrow> Inl (FileNotFoundError path) | Some b \<Rightarrow> Inr b)"

definition pickle_load :: "'m blob \<Rightarrow> error + 'm pyval" where
  "pickle_load b = (case b of Garbage \<Rightarrow> Inl UnpicklingError | Pickled v \<Rightarrow> Inr v)"

text \<open>\<open>data[key]\<close>: a dictionary looks the key up, every other value is not subscriptable
  by a string.\<close>

fun getitem :: "'m pyval \<Rightarrow> string \<Rightarrow> error + 'm pyval" where
  "getitem (VDict kvs) k = (case map_of kvs k of None \<Rightarrow> Inl (KeyError k) | Some v \<Rightarrow> Inr v)"
| "getitem v k = Inl (TypeError ''not subscriptable by str'')"

text \<open>
  \<open>load_model\<close>: the three assignments run in the order of the source inside one
  \<open>try\<close>; an exception at any point leaves the assignments already made in place and
  returns \<open>False\<close>.
\<close>

definition load_model :: "'m filesystem \<Rightarrow> 'm pricing_model \<Rightarrow> 'm pricing_model \<times> bool" where
  "load_model fs st =
     (case open_rb fs (model_path st) of
        Inl e \<Rightarrow> (st, False)
      | Inr f \<Rightarrow>
          (case pickle_load f of
             Inl e \<Rightarrow> (st, False)
           | Inr data \<Rightarrow>
               (case getitem data ''model'' of
                  Inl e \<Rightarrow> (st, False)
                | Inr m \<Rightarrow>
                    (let st1 = st\<lparr>model := m\<rparr> in
                     case getitem data ''scaler'' of
                       Inl e \<Rightarrow> (st1, False)
                     | Inr s \<Rightarrow> (st1\<lparr>scaler := s, is_trained := True\<rparr>, True)))))"

section \<open>The libraries the model calls\<close>

text \<open>
  \<open>numpy.random\<close> is a stream of draws behind a global state \<open>'g\<close>. The generator itself
  (a Mersenne twister) is library code; the repository's functions are written over any
  such stream. \<open>rng_seed\<close> is \<open>np.random.seed\<close>; each draw returns the value and the next
  state. \<open>uniform lo hi\<close> draws from the half-open interval, \<open>randint lo hi\<close> an integer
  from \<open>lo\<close> up to but excluding \<open>hi\<close>.
\<close>

record 'g rng =
  rng_seed :: "nat \<Rightarrow> 'g"
  uniform :: "real \<Rightarrow> real \<Rightarrow> 'g \<Rightarrow> real \<times> 'g"
  randint :: "int \<Rightarrow> int \<Rightarrow> 'g \<Rightarrow> int \<times> 'g"
  normal :: "real \<Rightarrow> real \<Rightarrow> 'g \<Rightarrow> real \<times> 'g"

text \<open>A draw with a \<open>size\<close> argument is that many successive draws.\<close>

fun draws :: "('g \<Rightarrow> 'a \<times> 'g) \<Rightarrow> nat \<Rightarrow> 'g \<Rightarrow> 'a list \<times> 'g" where
  "draws d 0 g = ([], g)"
| "draws d (Suc n) g = (let (x, g1) = d g; (xs, g2) = draws d n g1 in (x # xs, g2))"

text \<open>
  scikit-learn, as far as \<open>train\<close>, \<open>predict\<close> and \<open>get_feature_importance\<close> call it:
  \<^item> \<open>n_test n\<close> is the size of the test split of \<open>n\<close> samples for \<open>test_size=0.2\<close>;
  \<^item> \<open>permutation n\<close> is the shuffle of \<open>range(n)\<close> for \<open>random_state=42\<close>;
  \<^item> \<open>rf_fit\<close>, \<open>rf_predict\<close>, \<open>rf_importances\<close> are \<open>RandomForestRegressor\<close>'s
    \<open>fit\<close>, \<open>predict\<close> and \<open>feature_importances_\<close> (100 trees, depth 10, seed 42);
  \<^item> \<open>mean_squared_error\<close> and \<open>r2_score\<close> are the two metrics.
\<close>

record 'm sklearn =
  n_test :: "nat \<Rightarrow> nat"
  permutation :: "nat \<Rightarrow> nat list"
  rf_fit :: "real list list \<Rightarrow> real list \<Rightarrow> error + 'm"
  rf_predict :: "'m \<Rightarrow> real list list \<Rightarrow> error + real list"
  rf_importances :: "'m \<Rightarrow> real list"
  mean_squared_error :: "real list \<Rightarrow> real list \<Rightarrow> real"
  r2_score :: "real list \<Rightarrow> real list \<Rightarrow> real"

section \<open>DynamicPricingModel: training data, split and scaler\<close>

text \<open>\<open>generate_training_data\<close>: seeds the stream with 42, draws the six feature columns
  and the noise, stacks the columns and computes the target.\<close>

definition generate_training_data :: "'g rng \<Rightarrow> nat \<Rightarrow> (real list list \<times> real list) \<times> 'g" where
  "generate_training_data r n_samples =
     (let g0 = rng_seed r 42;
          (base_prices, g1) = draws (uniform r 10 100) n_samples g0;
          (demand, g2) = draws (randint r 0 1000) n_samples g1;
          (ratio, g3) = draws (uniform r (8 / 10) (12 / 10)) n_samples g2;
          competition_prices = map2 (*) base_prices ratio;
          (time_of_day, g4) = draws (randint r 0 24) n_samples g3;
          (day_of_week, g5) = draws (randint r 0 7) n_samples g4;
          (season, g6) = draws (randint r 0 4) n_samples g5;
          (noise, g7) = draws (normal r 0 2) n_samples g6;
          features = map (\<lambda>i. [base_prices ! i, of_int (demand ! i), competition_prices ! i,
                                 of_int (time_of_day ! i), of_int (day_of_week ! i),
                                 of_int (season ! i)]) [0..<n_samples];
          optimal_price = map (\<lambda>i.
               base_prices ! i * (7 / 10)
             + (of_int (demand ! i) / 1000) * base_prices ! i * (3 / 10)
             + competition_prices ! i * (2 / 10)
             - (if time_of_day ! i > 20 then 1 else 0) * base_prices ! i * (5 / 100)
             + noise ! i) [0..<n_samples]
      in ((features, optimal_price), g7))"

text \<open>
  \<open>train_test_split(features, targets, test_size=0.2, random_state=42)\<close>: the first
  \<open>n_test\<close> indices of the permutation are the test split, the rest the training split.
\<close>

definition test_indices :: "'m sklearn \<Rightarrow> nat \<Rightarrow> nat list" where
  "test_indices lib n = take (n_test lib n) (permutation lib n)"

definition train_indices :: "'m sklearn \<Rightarrow> nat \<Rightarrow> nat list" where
  "train_indices lib n = take (n - n_test lib n) (drop (n_test lib n) (permutation lib n))"

definition train_test_split ::
  "'m sklearn \<Rightarrow> real list list \<Rightarrow> real list
     \<Rightarrow> error + (real list list \<times> real list list \<times> real list \<times> real list)" where
  "train_test_split lib features targets =
     (let n = length features in
      if length targets \<noteq> n then Inl (ValueError ''inconsistent numbers of samples'')
      else if n - n_test lib n = 0 then Inl (ValueError ''the resulting train set will be empty'')
      else Inr (map (\<lambda>i. features ! i) (train_indices lib n),
                map (\<lambda>i. features ! i) (test_indices lib n),
                map (\<lambda>i. targets ! i) (train_indices lib n),
                map (\<lambda>i. targets ! i) (test_indices lib n)))"

text \<open>
  \<open>StandardScaler.fit\<close>: per column the mean and the population standard deviation; a
  column without spread gets scale 1.
\<close>

definition column_mean :: "real list \<Rightarrow> real" where
  "column_mean xs = sum_list xs / of_nat (length xs)"

definition column_scale :: "real list \<Rightarrow> real" where
  "column_scale xs =
     (let v = sum_list (map (\<lambda>x. (x - column_mean xs)\<^sup>2) xs) / of_nat (length xs)
      in if v = 0 then 1 else sqrt v)"

definition columns_of :: "real list list \<Rightarrow> real list list" where
  "columns_of X = map (\<lambda>j. map (\<lambda>row. row ! j) X) [0..<length (hd X)]"

definition fit_scaler :: "real list list \<Rightarrow> error + scaler_params" where
  "fit_scaler X =
     (if X = [] then Inl (ValueError ''Found array with 0 sample(s)'')
      else if hd X = [] then Inl (ValueError ''Found array with 0 feature(s)'')
      else Inr \<lparr>sc_mean = map column_mean (columns_of X), sc_scale = map column_scale (columns_of X)\<rparr>)"

text \<open>\<open>StandardScaler.transform\<close>: every row needs as many features as the scaler was
  fitted on.\<close>

definition scale_row :: "scaler_params \<Rightarrow> real list \<Rightarrow> real list" where
  "scale_row sc row = map (\<lambda>j. (row ! j - sc_mean sc ! j) / sc_scale sc ! j) [0..<length row]"

definition scaler_transform :: "scaler_params \<Rightarrow> real list list \<Rightarrow> error + real list list" where
  "scaler_transform sc X =
     (if \<exists>row \<in> set X. length row \<noteq> length (sc_mean sc)
      then Inl (ValueError ''X has a different number of features than the scaler'')
      else Inr (map (scale_row sc) X))"

text \<open>The same calls on whatever object the attribute holds.\<close>

fun obj_transform :: "'m pyval \<Rightarrow> real list list \<Rightarrow> error + real list list" where
  "obj_transform (VScaler (Some sc)) X = scaler_transform sc X"
| "obj_transform (VScaler None) X = Inl (ValueError ''This StandardScaler instance is not fitted yet'')"
| "obj_transform v X = Inl (AttributeError ''transform'')"

fun obj_predict :: "'m sklearn \<Rightarrow> 'm pyval \<Rightarrow> real list list \<Rightarrow> error + real list" where
  "obj_predict lib (VModel (Some m)) X = rf_predict lib m X"
| "obj_predict lib (VModel None) X = Inl (ValueError ''This RandomForestRegressor instance is not fitted yet'')"
| "obj_predict lib v X = Inl (AttributeError ''predict'')"

fun obj_importances :: "'m sklearn \<Rightarrow> 'm pyval \<Rightarrow> error + real list" where
  "obj_importances lib (VModel (Some m)) = Inr (rf_importances lib m)"
| "obj_importances lib (VModel None) = Inl (ValueError ''This RandomForestRegressor instance is not fitted yet'')"
| "obj_importances lib v = Inl (AttributeError ''feature_importances_'')"

section \<open>DynamicPricingModel: train, predict, feature importance\<close>

record metrics =
  mse :: real
  rmse :: real
  r2 :: real
  trained_at :: string

text \<open>
  \<open>train\<close>. The body is one \<open>try\<close>: an exception at any step returns the error result and
  keeps the attribute assignments made before it. \<open>now_iso\<close> is the clock reading that
  becomes \<open>trained_at\<close>; the default sample count of the synthetic data is 10000.
\<close>

definition train ::
  "'m sklearn \<Rightarrow> 'g rng \<Rightarrow> string \<Rightarrow> 'm pricing_model \<Rightarrow> real list list option \<Rightarrow> real list option
     \<Rightarrow> 'm pricing_model \<times> (error + metrics)" where
  "train lib r now_iso st features targets =
     (let (X, y) = (case (features, targets) of
                      (Some X, Some y) \<Rightarrow> (X, y)
                    | _ \<Rightarrow> fst (generate_training_data r 10000))
      in case train_test_split lib X y of
           Inl e \<Rightarrow> (st, Inl e)
         | Inr (X_train, X_test, y_train, y_test) \<Rightarrow>
             (let st1 = st\<lparr>scaler := VScaler None\<rparr> in
              case fit_scaler X_train of
                Inl e \<Rightarrow> (st1, Inl e)
              | Inr sc \<Rightarrow>
                  (let st2 = st1\<lparr>scaler := VScaler (Some sc)\<rparr> in
                   case scaler_transform sc X_train of
                     Inl e \<Rightarrow> (st2, Inl e)
                   | Inr X_train_scaled \<Rightarrow>
                       (case scaler_transform sc X_test of
                          Inl e \<Rightarrow> (st2, Inl e)
                        | Inr X_test_scaled \<Rightarrow>
                            (let st3 = st2\<lparr>model := VModel None\<rparr> in
                             case rf_fit lib X_train_scaled y_train of
                               Inl e \<Rightarrow> (st3, Inl e)
                             | Inr m \<Rightarrow>
                                 (let st4 = st3\<lparr>model := VModel (Some m)\<rparr> in
                                  case rf_predict lib m X_test_scaled of
                                    Inl e \<Rightarrow> (st4, Inl e)
                                  | Inr y_pred \<Rightarrow>
                                      (let mse_v = mean_squared_error lib y_test y_pred;
                                           rmse_v = sqrt mse_v;
                                           r2_v = r2_score lib y_test y_pred
                                       in (st4\<lparr>is_trained := True\<rparr>,
                                           Inr \<lparr>mse = mse_v, rmse = rmse_v, r2 = r2_v,
                                                trained_at = now_iso\<rparr>))))))))"

text \<open>\<open>predict\<close>: the guard on \<open>is_trained\<close> comes first; errors of the two library calls
  are logged and raised again.\<close>

definition predict :: "'m sklearn \<Rightarrow> 'm pricing_model \<Rightarrow> real list list \<Rightarrow> error + real list" where
  "predict lib st features =
     (if \<not> is_trained st then Inl (ValueError ''Model must be trained before prediction'')
      else case obj_transform (scaler st) features of
             Inl e \<Rightarrow> Inl e
           | Inr features_scaled \<Rightarrow> obj_predict lib (model st) features_scaled)"

definition predict_single ::
  "'m sklearn \<Rightarrow> 'm pricing_model \<Rightarrow> real \<Rightarrow> int \<Rightarrow> real \<Rightarrow> int \<Rightarrow> int \<Rightarrow> int \<Rightarrow> error + real" where
  "predict_single lib st base_price demand competition_price time_of_day day_of_week season =
     (case predict lib st [[base_price, of_int demand, competition_price,
                            of_int time_of_day, of_int day_of_week, of_int season]] of
        Inl e \<Rightarrow> Inl e
      | Inr prediction \<Rightarrow>
          (case prediction of [] \<Rightarrow> Inl (IndexError ''index 0 is out of bounds'') | p # _ \<Rightarrow> Inr p))"

definition feature_names :: "string list" where
  "feature_names = [''base_price'', ''demand'', ''competition_price'',
                    ''time_of_day'', ''day_of_week'', ''season'']"

text \<open>\<open>get_feature_importance\<close>: \<open>dict(zip(feature_names, importances))\<close>; the names are
  distinct, so the association list is the dictionary.\<close>

definition get_feature_importance :: "'m sklearn \<Rightarrow> 'm pricing_model \<Rightarrow> error + (string \<times> real) list" where
  "get_feature_importance lib st =
     (if \<not> is_trained st then Inr []
      else case obj_importances lib (model st) of
             Inl e \<Rightarrow> Inl e
           | Inr importances \<Rightarrow> Inr (zip feature_names importances))"

section \<open>Instances of the library interfaces\<close>

text \<open>
  Small instances of the two library interfaces, on which the definitions above run on
  concrete inputs: a split that takes every fifth sample (rounded up) from the end of the
  reversed index range, an ensemble that remembers the number of feature columns and
  weighs each of them alike, and a stream of draws that counts upwards.
\<close>

definition demo_sklearn :: "nat sklearn" where
  "demo_sklearn =
     \<lparr>n_test = (\<lambda>n. (n + 4) div 5),
      permutation = (\<lambda>n. rev [0..<n]),
      rf_fit = (\<lambda>X y. if X = [] \<or> hd X = [] then Inl (ValueError ''empty'') else Inr (length (hd X))),
      rf_predict = (\<lambda>m X. Inr (map (\<lambda>row. 0) X)),
      rf_importances = (\<lambda>m. replicate m (1 / of_nat m)),
      mean_squared_error = (\<lambda>a b. sum_list (map2 (\<lambda>x y. (x - y)\<^sup>2) a b) / of_nat (length a)),
      r2_score = (\<lambda>a b. 0)\<rparr>"

definition demo_rng :: "nat rng" where
  "demo_rng =
     \<lparr>rng_seed = (\<lambda>s. s),
      uniform = (\<lambda>lo hi g. (lo + (hi - lo) * (of_nat (g mod 10) / 10), Suc g)),
      randint = (\<lambda>lo hi g. (lo + int g mod (hi - lo), Suc g)),
      normal = (\<lambda>mu sigma g. (mu, Suc g))\<rparr>"

text \<open>
  An ensemble none of whose trees has a split (as on constant targets): the library
  reports importance zero for every feature.
\<close>

definition demo_stumps :: "nat sklearn" where
  "demo_stumps = demo_sklearn\<lparr>rf_importances := (\<lambda>m. replicate m 0)\<rparr>"

text \<open>
  What \<open>feature_importances_\<close> promises of a fitted ensemble: one weight per feature
  column of the training matrix, none negative; the weights sum to one, or all of them
  are zero when no tree of the ensemble has a split.
\<close>

definition importances_contract :: "'m sklearn \<Rightarrow> bool" where
  "importances_contract lib \<longleftrightarrow>
     (\<forall>X y m. rf_fit lib X y = Inr m \<longrightarrow>
        X \<noteq> [] \<and> length (rf_importances lib m) = length (hd X)
        \<and> (\<forall>v \<in> set (rf_importances lib m). 0 \<le> v)
        \<and> (sum_list (rf_importances lib m) = 1 \<or> (\<forall>v \<in> set (rf_importances lib m). v = 0)))"

section \<open>Dates and times\<close>

text \<open>
  A \<open>datetime\<close> of the standard library: the proleptic Gregorian ordinal of its date
  (\<open>toordinal\<close>, day 1 is 0001-01-01) and its time of day. A valid value has its ordinal
  between 1 and 3652059 (9999-12-31) and its time fields in their ranges.
\<close>

record datetime =
  ordinal :: int
  hour :: int
  minute :: int
  second :: int
  microsecond :: int

definition valid_datetime :: "datetime \<Rightarrow> bool" where
  "valid_datetime t \<longleftrightarrow>
     1 \<le> ordinal t \<and> ordinal t \<le> 3652059 \<and> 0 \<le> hour t \<and> hour t < 24
     \<and> 0 \<le> minute t \<and> minute t < 60 \<and> 0 \<le> second t \<and> second t < 60
     \<and> 0 \<le> microsecond t \<and> microsecond t < 1000000"

text \<open>\<open>timedelta(days=d)\<close> holds at most 999999999 days either way.\<close>

definition timedelta_days :: "int \<Rightarrow> error + int" where
  "timedelta_days d =
     (if d < - 999999999 \<or> 999999999 < d then Inl (OverflowError ''days out of range'')
      else Inr d)"

text \<open>\<open>datetime + timedelta\<close> and \<open>datetime - timedelta\<close> for whole days: the time of day
  stays, the date moves, and a date outside the years 1 to 9999 raises.\<close>

definition datetime_add :: "datetime \<Rightarrow> int \<Rightarrow> error + datetime" where
  "datetime_add t d =
     (if ordinal t + d < 1 \<or> 3652059 < ordinal t + d then Inl (OverflowError ''date value out of range'')
      else Inr (t\<lparr>ordinal := ordinal t + d\<rparr>))"

definition datetime_sub :: "datetime \<Rightarrow> int \<Rightarrow> error + datetime" where
  "datetime_sub t d = datetime_add t (- d)"

text \<open>\<open>weekday()\<close>: Monday is 0.\<close>

definition weekday :: "datetime \<Rightarrow> int" where
  "weekday t = (ordinal t + 6) mod 7"

text \<open>
  \<open>month\<close>: the month of the ordinal, by the standard library's conversion of an ordinal
  to year, month and day (cycles of 400, 100, 4 and 1 years, then an estimate of the
  month that is corrected with the table of days before each month).
\<close>

definition days_before_month :: "int list" where
  "days_before_month = [- 1, 0, 31, 59, 90, 120, 151, 181, 212, 243, 273, 304, 334]"

definition month :: "datetime \<Rightarrow> int" where
  "month t =
     (let n0 = ordinal t - 1;
          n1 = n0 mod 146097;
          n100 = n1 div 36524;
          n2 = n1 mod 36524;
          n4 = n2 div 1461;
          n3 = n2 mod 1461;
          ny = n3 div 365;
          n = n3 mod 365
      in if ny = 4 \<or> n100 = 4 then 12
         else (let leapyear = (ny = 3 \<and> (n4 \<noteq> 24 \<or> n100 = 3));
                   m = (n + 50) div 32;
                   preceding = days_before_month ! nat m + (if m > 2 \<and> leapyear then 1 else 0)
               in if preceding > n then m - 1 else m))"

section \<open>DataPipeline: the sample generator\<close>

text \<open>One entry of the list \<open>data\<close> that \<open>generate_sample_data\<close> builds.\<close>

record sample =
  product_id :: string
  timestamp :: datetime
  base_price :: real
  current_price :: real
  demand :: int
  competition_price :: real
  time_of_day :: int
  day_of_week :: int
  season :: int

text \<open>\<open>round(x, 2)\<close>: to the nearest hundredth, a tie to the even neighbour.\<close>

definition round_half_even :: "real \<Rightarrow> int" where
  "round_half_even x =
     (let f = \<lfloor>x\<rfloor>; d = x - of_int f
      in if d < 1 / 2 then f else if 1 / 2 < d then f + 1 else if even f then f else f + 1)"

definition round2 :: "real \<Rightarrow> real" where
  "round2 x = of_int (round_half_even (x * 100)) / 100"

text \<open>\<open>f'PROD-{product_id:04d}'\<close>: the decimal digits, padded with zeros to four.\<close>

fun decimal :: "nat \<Rightarrow> string" where
  "decimal n = (if n < 10 then [char_of (48 + n)] else decimal (n div 10) @ [char_of (48 + n mod 10)])"

definition product_label :: "nat \<Rightarrow> string" where
  "product_label p = ''PROD-'' @ replicate (4 - length (decimal p)) (CHR ''0'') @ decimal p"

text \<open>
  The inner loop \<open>for day in range(days)\<close> for one product, over the days still to do, and
  the outer loop \<open>for product_id in range(1, n_products + 1)\<close>. Each threads the state of
  the random stream; an exception of the date arithmetic ends the call.
\<close>

fun day_loop ::
  "'g rng \<Rightarrow> nat \<Rightarrow> real \<Rightarrow> datetime \<Rightarrow> int list \<Rightarrow> 'g \<Rightarrow> error + (sample list \<times> 'g)" where
  "day_loop r pid bp start_date [] g = Inr ([], g)"
| "day_loop r pid bp start_date (day # days) g =
     (case timedelta_days day of
        Inl e \<Rightarrow> Inl e
      | Inr td \<Rightarrow>
          (case datetime_add start_date td of
             Inl e \<Rightarrow> Inl e
           | Inr ts \<Rightarrow>
               (let (dm, g1) = randint r 50 500 g;
                    (u1, g2) = uniform r (85 / 100) (115 / 100) g1;
                    cmp = bp * u1;
                    (u2, g3) = uniform r (9 / 10) (11 / 10) g2;
                    cur = bp * u2;
                    row = \<lparr>product_id = product_label pid, timestamp = ts,
                           base_price = round2 bp, current_price = round2 cur,
                           demand = dm, competition_price = round2 cmp,
                           time_of_day = hour ts, day_of_week = weekday ts,
                           season = (month ts - 1) div 3\<rparr>
                in case day_loop r pid bp start_date days g3 of
                     Inl e \<Rightarrow> Inl e
                   | Inr (rest, g4) \<Rightarrow> Inr (row # rest, g4))))"

fun product_loop ::
  "'g rng \<Rightarrow> datetime \<Rightarrow> int \<Rightarrow> nat list \<Rightarrow> 'g \<Rightarrow> error + (sample list \<times> 'g)" where
  "product_loop r start_date days [] g = Inr ([], g)"
| "product_loop r start_date days (pid # pids) g =
     (let (bp, g1) = uniform r 10 200 g
      in case day_loop r pid bp start_date (map int [0..<nat days]) g1 of
           Inl e \<Rightarrow> Inl e
         | Inr (rows, g2) \<Rightarrow>
             (case product_loop r start_date days pids g2 of
                Inl e \<Rightarrow> Inl e
              | Inr (rest, g3) \<Rightarrow> Inr (rows @ rest, g3)))"

text \<open>
  The list \<open>data\<close> of \<open>generate_sample_data\<close>. \<open>now\<close> is what \<open>datetime.now()\<close> reads and
  \<open>g\<close> the state of the global random stream at the call, which the seeding replaces.
\<close>

definition sample_records ::
  "'g rng \<Rightarrow> datetime \<Rightarrow> 'g \<Rightarrow> int \<Rightarrow> int \<Rightarrow> error + (sample list \<times> 'g)" where
  "sample_records r now g n_products days =
     (let g0 = rng_seed r 42
      in case timedelta_days days of
           Inl e \<Rightarrow> Inl e
         | Inr td \<Rightarrow>
             (case datetime_sub now td of
                Inl e \<Rightarrow> Inl e
              | Inr start_date \<Rightarrow>
                  product_loop r start_date days [1..<nat (n_products + 1)] g0))"

section \<open>Data frames\<close>

text \<open>
  Floating-point numbers are the reals with the two infinities; not-a-number is the
  missing value. Signed zeros and rounding are not part of the model: arithmetic on
  finite numbers is exact.
\<close>

datatype num = Fin real | PInf | NInf

fun num_less :: "num \<Rightarrow> num \<Rightarrow> bool" where
  "num_less (Fin a) (Fin b) = (a < b)"
| "num_less NInf NInf = False"
| "num_less NInf b = True"
| "num_less a PInf = (a \<noteq> PInf)"
| "num_less a b = False"

fun num_neg :: "num \<Rightarrow> num" where
  "num_neg (Fin a) = Fin (- a)"
| "num_neg PInf = NInf"
| "num_neg NInf = PInf"

text \<open>The results are options: \<open>None\<close> is not-a-number.\<close>

fun num_add :: "num \<Rightarrow> num \<Rightarrow> num option" where
  "num_add (Fin a) (Fin b) = Some (Fin (a + b))"
| "num_add PInf NInf = None"
| "num_add NInf PInf = None"
| "num_add PInf b = Some PInf"
| "num_add NInf b = Some NInf"
| "num_add a b = Some b"

definition num_sub :: "num \<Rightarrow> num \<Rightarrow> num option" where
  "num_sub a b = num_add a (num_neg b)"

fun num_scale :: "real \<Rightarrow> num \<Rightarrow> num option" where
  "num_scale c (Fin a) = Some (Fin (c * a))"
| "num_scale c PInf = (if c = 0 then None else if 0 < c then Some PInf else Some NInf)"
| "num_scale c NInf = (if c = 0 then None else if 0 < c then Some NInf else Some PInf)"

fun num_div :: "num \<Rightarrow> num \<Rightarrow> num option" where
  "num_div (Fin a) (Fin b) =
     (if b = 0 then (if a = 0 then None else if 0 < a then Some PInf else Some NInf)
      else Some (Fin (a / b)))"
| "num_div (Fin a) b = Some (Fin 0)"
| "num_div a (Fin b) = (if 0 \<le> b then Some a else Some (num_neg a))"
| "num_div a b = None"

text \<open>
  A cell of a frame and the type of a column. \<open>NA\<close> stands for every missing value
  (\<open>NaN\<close>, \<open>None\<close>, \<open>NaT\<close>). A numeric column (\<open>Int64\<close>, \<open>Float64\<close>) holds numbers and, if
  \<open>Float64\<close>, missing values; an \<open>Object\<close> column holds strings, a \<open>Datetime64\<close> column
  timestamps, a \<open>Category\<close> column labels.
\<close>

datatype cell = Num num | Str string | Time datetime | Cat string | NA

datatype dtype = Int64 | Float64 | Object | Datetime64 | Category

definition is_number :: "dtype \<Rightarrow> bool" where
  "is_number d \<longleftrightarrow> d = Int64 \<or> d = Float64"

fun dtype_str :: "dtype \<Rightarrow> string" where
  "dtype_str Int64 = ''int64''"
| "dtype_str Float64 = ''float64''"
| "dtype_str Object = ''object''"
| "dtype_str Datetime64 = ''datetime64[ns]''"
| "dtype_str Category = ''category''"

text \<open>
  A \<open>DataFrame\<close>: the columns in order with their types, and the rows, each a list with
  one cell per column. The row labels are not part of the model.
\<close>

record frame =
  columns :: "(string \<times> dtype) list"
  rows :: "cell list list"

text \<open>
  The frames of the model: column names are distinct, every row has one cell per column,
  and a frame without columns has no rows.
\<close>

definition wf_frame :: "frame \<Rightarrow> bool" where
  "wf_frame f \<longleftrightarrow>
     distinct (map fst (columns f))
     \<and> (\<forall>r \<in> set (rows f). length r = length (columns f))
     \<and> (columns f = [] \<longrightarrow> rows f = [])"

text \<open>\<open>name in df.columns\<close> and the position of a column.\<close>

fun col_index :: "string \<Rightarrow> (string \<times> dtype) list \<Rightarrow> nat option" where
  "col_index name [] = None"
| "col_index name (c # cs) =
     (if fst c = name then Some 0 else map_option Suc (col_index name cs))"

definition column :: "nat \<Rightarrow> frame \<Rightarrow> cell list" where
  "column i f = map (\<lambda>r. r ! i) (rows f)"

text \<open>\<open>pd.DataFrame(data)\<close> for the list of samples: no columns at all for the empty list.\<close>

definition sample_row :: "sample \<Rightarrow> cell list" where
  "sample_row s =
     [Str (product_id s), Time (timestamp s), Num (Fin (base_price s)),
      Num (Fin (current_price s)), Num (Fin (of_int (demand s))),
      Num (Fin (competition_price s)), Num (Fin (of_int (time_of_day s))),
      Num (Fin (of_int (day_of_week s))), Num (Fin (of_int (season s)))]"

definition DataFrame :: "sample list \<Rightarrow> frame" where
  "DataFrame data =
     (if data = [] then \<lparr>columns = [], rows = []\<rparr>
      else \<lparr>columns = [(''product_id'', Object), (''timestamp'', Datetime64),
                        (''base_price'', Float64), (''current_price'', Float64),
                        (''demand'', Int64), (''competition_price'', Float64),
                        (''time_of_day'', Int64), (''day_of_week'', Int64),
                        (''season'', Int64)],
            rows = map sample_row data\<rparr>)"

text \<open>\<open>generate_sample_data\<close>: the frame of the samples, and the state the global random
  stream is left in.\<close>

definition generate_sample_data ::
  "'g rng \<Rightarrow> datetime \<Rightarrow> 'g \<Rightarrow> int \<Rightarrow> int \<Rightarrow> error + (frame \<times> 'g)" where
  "generate_sample_data r now g n_products days =
     (case sample_records r now g n_products days of
        Inl e \<Rightarrow> Inl e
      | Inr (data, g1) \<Rightarrow> Inr (DataFrame data, g1))"

subsection \<open>Duplicates, masks, element-wise operations\<close>

text \<open>
  \<open>duplicated()\<close>: a row is marked when an equal row stands before it (missing values
  compare equal). \<open>df[mask]\<close> keeps the rows whose mark is true.
\<close>

fun duplicated_from :: "'a list \<Rightarrow> 'a list \<Rightarrow> bool list" where
  "duplicated_from seen [] = []"
| "duplicated_from seen (r # rs) = (r \<in> set seen) # duplicated_from (r # seen) rs"

definition duplicated :: "'a list \<Rightarrow> bool list" where
  "duplicated rs = duplicated_from [] rs"

definition select_rows :: "bool list \<Rightarrow> 'a list \<Rightarrow> 'a list" where
  "select_rows marks rs = map fst (filter snd (zip rs marks))"

definition drop_duplicates :: "frame \<Rightarrow> frame" where
  "drop_duplicates f = f\<lparr>rows := select_rows (map Not (duplicated (rows f))) (rows f)\<rparr>"

text \<open>A list of results is the list of values, or the first error.\<close>

fun sequence_err :: "(error + 'a) list \<Rightarrow> error + 'a list" where
  "sequence_err [] = Inr []"
| "sequence_err (x # xs) =
     (case x of
        Inl e \<Rightarrow> Inl e
      | Inr v \<Rightarrow> (case sequence_err xs of Inl e \<Rightarrow> Inl e | Inr vs \<Rightarrow> Inr (v # vs)))"

text \<open>
  \<open>series < 0\<close> and \<open>series > 0\<close>. A timestamp or category column refuses the comparison
  with a number; in an object column the comparison of a string raises; a missing value
  compares false.
\<close>

fun cell_cmp0 :: "(num \<Rightarrow> bool) \<Rightarrow> cell \<Rightarrow> error + bool" where
  "cell_cmp0 p (Num v) = Inr (p v)"
| "cell_cmp0 p NA = Inr False"
| "cell_cmp0 p c = Inl (TypeError ''comparison with int'')"

definition series_cmp0 :: "(num \<Rightarrow> bool) \<Rightarrow> dtype \<Rightarrow> cell list \<Rightarrow> error + bool list" where
  "series_cmp0 p d cells =
     (if d = Datetime64 \<or> d = Category then Inl (TypeError ''invalid comparison'')
      else sequence_err (map (cell_cmp0 p) cells))"

definition lt0 :: "num \<Rightarrow> bool" where
  "lt0 v = num_less v (Fin 0)"

definition gt0 :: "num \<Rightarrow> bool" where
  "gt0 v = num_less (Fin 0) v"

subsection \<open>Order statistics\<close>

fun insert_num :: "num \<Rightarrow> num list \<Rightarrow> num list" where
  "insert_num x [] = [x]"
| "insert_num x (y # ys) = (if num_less y x then y # insert_num x ys else x # y # ys)"

definition sort_num :: "num list \<Rightarrow> num list" where
  "sort_num xs = foldr insert_num xs []"

text \<open>The numbers of a column, missing values skipped.\<close>

fun present :: "cell list \<Rightarrow> num list" where
  "present [] = []"
| "present (Num v # cs) = v # present cs"
| "present (c # cs) = present cs"

text \<open>\<open>median()\<close>: the middle value, or the mean of the two middle values.\<close>

definition median :: "cell list \<Rightarrow> num option" where
  "median cells =
     (let vs = sort_num (present cells); n = length vs
      in if n = 0 then None
         else if odd n then Some (vs ! (n div 2))
         else (case num_add (vs ! (n div 2 - 1)) (vs ! (n div 2)) of
                 None \<Rightarrow> None
               | Some s \<Rightarrow> num_scale (1 / 2) s))"

text \<open>
  \<open>quantile(q)\<close> with linear interpolation, as the array library computes it: the value
  at the rank below the position and the value at the next rank (the last rank at most)
  are combined as \<open>a + (b - a) * t\<close>, or as \<open>b - (b - a) * (1 - t)\<close> from \<open>t = 1/2\<close> on.
  The arithmetic is the one above: at an exact rank (\<open>t = 0\<close>) an infinite difference
  to the next value is multiplied by zero and the result is not-a-number, as it is when
  both values are the same infinity.
\<close>

definition quantile :: "real \<Rightarrow> cell list \<Rightarrow> num option" where
  "quantile q cells =
     (let vs = sort_num (present cells); n = length vs
      in if n = 0 then None
         else (let pos = of_nat (n - 1) * q;
                   lo = nat \<lfloor>pos\<rfloor>;
                   hi = min (lo + 1) (n - 1);
                   t = pos - of_int \<lfloor>pos\<rfloor>;
                   a = vs ! lo;
                   b = vs ! hi
               in case num_sub b a of
                    None \<Rightarrow> None
                  | Some d \<Rightarrow>
                      (if 1 / 2 \<le> t
                       then (case num_scale (1 - t) d of
                               None \<Rightarrow> None
                             | Some e \<Rightarrow> num_sub b e)
                       else (case num_scale t d of
                               None \<Rightarrow> None
                             | Some e \<Rightarrow> num_add a e))))"

section \<open>DataPipeline: validation\<close>

record report =
  total_records :: nat
  missing_values :: "(string \<times> nat) list"
  duplicate_records :: nat
  data_types :: "(string \<times> string) list"
  validated_at :: string
  negative_prices :: "nat option"
  demand_outliers :: "nat option"

definition count_true :: "bool list \<Rightarrow> nat" where
  "count_true bs = length (filter id bs)"

text \<open>\<open>data.isnull().sum().to_dict()\<close>: per column, the number of missing cells.\<close>

definition isnull_sum :: "frame \<Rightarrow> (string \<times> nat) list" where
  "isnull_sum f =
     map (\<lambda>i. (fst (columns f ! i), length (filter (\<lambda>c. c = NA) (column i f))))
       [0..<length (columns f)]"

text \<open>
  The values \<open>quantile\<close> and the comparisons with its results work on: numbers as they
  are, timestamps as microseconds on the time line; an object or category column raises.
\<close>

definition time_num :: "datetime \<Rightarrow> real" where
  "time_num t =
     of_int ((((ordinal t * 24 + hour t) * 60 + minute t) * 60 + second t) * 1000000
             + microsecond t)"

fun cell_value :: "cell \<Rightarrow> cell" where
  "cell_value (Time t) = Num (Fin (time_num t))"
| "cell_value c = c"

definition series_values :: "dtype \<Rightarrow> cell list \<Rightarrow> error + cell list" where
  "series_values d cells =
     (if d = Object \<or> d = Category then Inl (TypeError ''quantile of a non-numeric column'')
      else Inr (map cell_value cells))"

text \<open>
  The outlier rule on \<open>demand\<close>: outside one and a half interquartile ranges below the
  first or above the third quartile. A comparison with not-a-number is false.
\<close>

definition tukey_outliers :: "cell list \<Rightarrow> nat" where
  "tukey_outliers cells =
     (let q1 = quantile (1 / 4) cells;
          q3 = quantile (3 / 4) cells;
          iqr = (case (q3, q1) of (Some a, Some b) \<Rightarrow> num_sub a b | _ \<Rightarrow> None);
          w = (case iqr of Some d \<Rightarrow> num_scale (3 / 2) d | None \<Rightarrow> None);
          lower = (case (q1, w) of (Some a, Some b) \<Rightarrow> num_sub a b | _ \<Rightarrow> None);
          upper = (case (q3, w) of (Some a, Some b) \<Rightarrow> num_add a b | _ \<Rightarrow> None)
      in length (filter
           (\<lambda>v. (case lower of Some l \<Rightarrow> num_less v l | None \<Rightarrow> False)
              \<or> (case upper of Some u \<Rightarrow> num_less u v | None \<Rightarrow> False))
           (present cells)))"

text \<open>
  The two optional entries of the report: \<open>negative_prices\<close> if there is a
  \<open>current_price\<close> column, \<open>demand_outliers\<close> if there is a \<open>demand\<close> column.
\<close>

definition negative_price_count :: "frame \<Rightarrow> error + nat option" where
  "negative_price_count data =
     (case col_index ''current_price'' (columns data) of
        None \<Rightarrow> Inr None
      | Some i \<Rightarrow>
          (case series_cmp0 lt0 (snd (columns data ! i)) (column i data) of
             Inl e \<Rightarrow> Inl e
           | Inr marks \<Rightarrow> Inr (Some (count_true marks))))"

definition demand_outlier_count :: "frame \<Rightarrow> error + nat option" where
  "demand_outlier_count data =
     (case col_index ''demand'' (columns data) of
        None \<Rightarrow> Inr None
      | Some j \<Rightarrow>
          (case series_values (snd (columns data ! j)) (column j data) of
             Inl e \<Rightarrow> Inl e
           | Inr vs \<Rightarrow> Inr (Some (tukey_outliers vs))))"

text \<open>
  \<open>validate_data\<close>. It has no \<open>try\<close>: an exception of a comparison or of \<open>quantile\<close> leaves
  the call. \<open>now_iso\<close> is the clock reading that becomes \<open>validated_at\<close>.
\<close>

definition validate_data :: "string \<Rightarrow> frame \<Rightarrow> error + report" where
  "validate_data now_iso data =
     (case negative_price_count data of
        Inl e \<Rightarrow> Inl e
      | Inr negative \<Rightarrow>
          (case demand_outlier_count data of
             Inl e \<Rightarrow> Inl e
           | Inr outliers \<Rightarrow>
               Inr \<lparr>total_records = length (rows data),
                    missing_values = isnull_sum data,
                    duplicate_records = count_true (duplicated (rows data)),
                    data_types = map (\<lambda>(name, d). (name, dtype_str d)) (columns data),
                    validated_at = now_iso,
                    negative_prices = negative,
                    demand_outliers = outliers\<rparr>))"

section \<open>DataPipeline: transformation\<close>

text \<open>
  \<open>df[numeric_cols] = df[numeric_cols].fillna(df[numeric_cols].median())\<close>: per numeric
  column the median of its present values; a missing cell of the column takes it, unless
  the median itself is not-a-number.
\<close>

definition fill_values :: "frame \<Rightarrow> cell option list" where
  "fill_values f =
     map (\<lambda>i. if is_number (snd (columns f ! i))
               then map_option Num (median (column i f)) else None)
       [0..<length (columns f)]"

definition fill_cell :: "cell option \<Rightarrow> cell \<Rightarrow> cell" where
  "fill_cell v c = (case v of Some x \<Rightarrow> (if c = NA then x else c) | None \<Rightarrow> c)"

definition fillna_median :: "frame \<Rightarrow> frame" where
  "fillna_median f = f\<lparr>rows := map (\<lambda>r. map2 fill_cell (fill_values f) r) (rows f)\<rparr>"

text \<open>\<open>df = df[df['current_price'] > 0]\<close>, if the column is there.\<close>

definition keep_positive :: "frame \<Rightarrow> error + frame" where
  "keep_positive f =
     (case col_index ''current_price'' (columns f) of
        None \<Rightarrow> Inr f
      | Some i \<Rightarrow>
          (case series_cmp0 gt0 (snd (columns f ! i)) (column i f) of
             Inl e \<Rightarrow> Inl e
           | Inr marks \<Rightarrow> Inr (f\<lparr>rows := select_rows marks (rows f)\<rparr>)))"

text \<open>\<open>df[name] = values\<close>: a new column goes to the end, an old one is overwritten in
  place.\<close>

definition assign :: "string \<Rightarrow> dtype \<Rightarrow> cell list \<Rightarrow> frame \<Rightarrow> frame" where
  "assign name d vals f =
     (case col_index name (columns f) of
        None \<Rightarrow> f\<lparr>columns := columns f @ [(name, d)],
                 rows := map2 (\<lambda>r v. r @ [v]) (rows f) vals\<rparr>
      | Some i \<Rightarrow> f\<lparr>columns := (columns f)[i := (name, d)],
                   rows := map2 (\<lambda>r v. r[i := v]) (rows f) vals\<rparr>)"

text \<open>
  \<open>df['current_price'] / df['base_price']\<close>: division by zero gives an infinity (or
  not-a-number for zero by zero), a missing operand a missing result; strings, timestamps
  and categories do not divide.
\<close>

fun cell_div :: "cell \<Rightarrow> cell \<Rightarrow> error + cell" where
  "cell_div (Num a) (Num b) = Inr (case num_div a b of None \<Rightarrow> NA | Some v \<Rightarrow> Num v)"
| "cell_div (Num a) NA = Inr NA"
| "cell_div NA (Num b) = Inr NA"
| "cell_div NA NA = Inr NA"
| "cell_div a b = Inl (TypeError ''unsupported operand type(s) for /'')"

definition series_div :: "dtype \<Rightarrow> cell list \<Rightarrow> dtype \<Rightarrow> cell list \<Rightarrow> error + cell list" where
  "series_div d1 c1 d2 c2 =
     (if d1 = Datetime64 \<or> d1 = Category \<or> d2 = Datetime64 \<or> d2 = Category
      then Inl (TypeError ''unsupported operand type(s) for /'')
      else sequence_err (map2 cell_div c1 c2))"

definition add_price_ratio :: "frame \<Rightarrow> error + frame" where
  "add_price_ratio f =
     (case (col_index ''current_price'' (columns f), col_index ''base_price'' (columns f)) of
        (Some i, Some j) \<Rightarrow>
          (case series_div (snd (columns f ! i)) (column i f) (snd (columns f ! j)) (column j f) of
             Inl e \<Rightarrow> Inl e
           | Inr vals \<Rightarrow>
               Inr (assign ''price_ratio''
                      (if is_number (snd (columns f ! i)) \<and> is_number (snd (columns f ! j))
                       then Float64 else Object) vals f))
      | _ \<Rightarrow> Inr f)"

text \<open>
  \<open>pd.cut(df['demand'], bins=[0, 100, 300, 500, np.inf], labels=[...])\<close> with the
  defaults \<open>right=True\<close> and \<open>include_lowest=False\<close>: the bins are open on the left and
  closed on the right, so a value is labelled when it is above 0, and a value that is
  missing or in no bin has no label.
\<close>

definition num_le :: "num \<Rightarrow> real \<Rightarrow> bool" where
  "num_le v c \<longleftrightarrow> \<not> num_less (Fin c) v"

definition demand_label :: "num \<Rightarrow> cell" where
  "demand_label v =
     (if \<not> gt0 v then NA
      else if num_le v 100 then Cat ''low''
      else if num_le v 300 then Cat ''medium''
      else if num_le v 500 then Cat ''high''
      else Cat ''very_high'')"

fun cut_cell :: "cell \<Rightarrow> error + cell" where
  "cut_cell (Num v) = Inr (demand_label v)"
| "cut_cell NA = Inr NA"
| "cut_cell c = Inl (TypeError ''not supported between instances of float and str'')"

definition series_cut :: "dtype \<Rightarrow> cell list \<Rightarrow> error + cell list" where
  "series_cut d cells =
     (if d = Datetime64 then Inl (ValueError ''bins must be of datetime64 dtype'')
      else if d = Category then Inl (TypeError ''not supported between instances of float and str'')
      else sequence_err (map cut_cell cells))"

definition add_demand_level :: "frame \<Rightarrow> error + frame" where
  "add_demand_level f =
     (case col_index ''demand'' (columns f) of
        None \<Rightarrow> Inr f
      | Some i \<Rightarrow>
          (case series_cut (snd (columns f ! i)) (column i f) of
             Inl e \<Rightarrow> Inl e
           | Inr vals \<Rightarrow> Inr (assign ''demand_level'' Category vals f)))"

text \<open>The body of the \<open>try\<close> of \<open>transform_data\<close>, in the order of the source.\<close>

definition transform_steps :: "frame \<Rightarrow> error + frame" where
  "transform_steps data =
     (let df = drop_duplicates data;
          df = fillna_median df
      in case keep_positive df of
           Inl e \<Rightarrow> Inl e
         | Inr df1 \<Rightarrow>
             (case add_price_ratio df1 of
                Inl e \<Rightarrow> Inl e
              | Inr df2 \<Rightarrow> add_demand_level df2))"

text \<open>
  \<open>transform_data\<close> returns the frame and what it logged: \<open>logger.info\<close> after the steps,
  \<open>logger.error\<close> in the \<open>except\<close> branch, which returns the argument.
\<close>

datatype level = DEBUG | INFO | WARNING | ERROR | CRITICAL

type_synonym log_record = "level \<times> string"

definition transform_data :: "frame \<Rightarrow> frame \<times> log_record list" where
  "transform_data data =
     (case transform_steps data of
        Inl e \<Rightarrow> (data, [(ERROR, ''Failed to transform data'')])
      | Inr df \<Rightarrow> (df, [(INFO, ''Transformed data'')]))"

text \<open>
  A column of plain numbers: absent, or of a numeric type with numbers and missing
  values in its cells. The price and demand columns of a record set are of this kind.
\<close>

definition numeric_cell :: "cell \<Rightarrow> bool" where
  "numeric_cell c = (case c of Num v \<Rightarrow> True | NA \<Rightarrow> True | _ \<Rightarrow> False)"

definition numeric_column :: "string \<Rightarrow> frame \<Rightarrow> bool" where
  "numeric_column name f =
     (case col_index name (columns f) of
        None \<Rightarrow> True
      | Some i \<Rightarrow> is_number (snd (columns f ! i)) \<and> list_all numeric_cell (column i f))"

section \<open>Properties of generated samples\<close>

text \<open>
  The fields of a sample that come from the random stream and the loop counters alone;
  the other four (\<open>timestamp\<close>, \<open>time_of_day\<close>, \<open>day_of_week\<close>, \<open>season\<close>) come from the
  clock.
\<close>

definition seeded_fields :: "sample \<Rightarrow> string \<times> real \<times> real \<times> int \<times> real" where
  "seeded_fields s = (product_id s, base_price s, current_price s, demand s, competition_price s)"

text \<open>What \<open>numpy.random\<close> promises of its draws: \<open>uniform\<close> and \<open>randint\<close> stay in the
  half-open interval they are given.\<close>

definition rng_contract :: "'g rng \<Rightarrow> bool" where
  "rng_contract r \<longleftrightarrow>
     (\<forall>lo hi g. lo < hi \<longrightarrow> lo \<le> fst (uniform r lo hi g) \<and> fst (uniform r lo hi g) < hi)
   \<and> (\<forall>lo hi g. lo < hi \<longrightarrow> lo \<le> fst (randint r lo hi g) \<and> fst (randint r lo hi g) < hi)"

text \<open>The ranges of the fields of a sample.\<close>

definition sample_in_range :: "sample \<Rightarrow> bool" where
  "sample_in_range s \<longleftrightarrow>
     0 < current_price s \<and> 0 < base_price s \<and> 0 < competition_price s
     \<and> 50 \<le> demand s \<and> demand s < 500
     \<and> 0 \<le> time_of_day s \<and> time_of_day s \<le> 23
     \<and> 0 \<le> day_of_week s \<and> day_of_week s \<le> 6
     \<and> 0 \<le> season s \<and> season s \<le> 3"

text \<open>A clock reading for concrete runs.\<close>

definition demo_now :: datetime where
  "demo_now = \<lparr>ordinal = 740000, hour = 17, minute = 37, second = 5, microsecond = 1234\<rparr>"

section \<open>Record sets and settled frames\<close>

text \<open>
  A record set in the sense of the data model, as a frame: one cell per column in every
  row, distinct column names, no derived column yet, the price and demand columns (where
  present) of a numeric type, and every cell of a numeric column a number (finite or
  infinite), so that no numeric value is missing. \<open>finite_numbers\<close> says more: every cell
  of a numeric column is a finite number.
\<close>

definition present_numbers :: "frame \<Rightarrow> bool" where
  "present_numbers f \<longleftrightarrow>
     (\<forall>i < length (columns f). is_number (snd (columns f ! i)) \<longrightarrow>
        (\<forall>r \<in> set (rows f). \<exists>v. r ! i = Num v))"

definition finite_numbers :: "frame \<Rightarrow> bool" where
  "finite_numbers f \<longleftrightarrow>
     (\<forall>i < length (columns f). is_number (snd (columns f ! i)) \<longrightarrow>
        (\<forall>r \<in> set (rows f). \<exists>x. r ! i = Num (Fin x)))"

definition numeric_dtype :: "string \<Rightarrow> frame \<Rightarrow> bool" where
  "numeric_dtype name f =
     (case col_index name (columns f) of
        None \<Rightarrow> True
      | Some i \<Rightarrow> is_number (snd (columns f ! i)))"

definition record_set :: "frame \<Rightarrow> bool" where
  "record_set f \<longleftrightarrow>
     wf_frame f
     \<and> col_index ''price_ratio'' (columns f) = None
     \<and> col_index ''demand_level'' (columns f) = None
     \<and> numeric_dtype ''current_price'' f
     \<and> numeric_dtype ''base_price'' f
     \<and> numeric_dtype ''demand'' f
     \<and> present_numbers f"

text \<open>
  No missing value in a numeric column; and the same for every numeric column but the
  one of a given name.
\<close>

definition no_missing :: "frame \<Rightarrow> bool" where
  "no_missing f \<longleftrightarrow>
     (\<forall>i < length (columns f). is_number (snd (columns f ! i)) \<longrightarrow>
        (\<forall>r \<in> set (rows f). r ! i \<noteq> NA))"

definition no_missing_except :: "string \<Rightarrow> frame \<Rightarrow> bool" where
  "no_missing_except name f \<longleftrightarrow>
     (\<forall>i < length (columns f).
        is_number (snd (columns f ! i)) \<and> fst (columns f ! i) \<noteq> name \<longrightarrow>
        (\<forall>r \<in> set (rows f). r ! i \<noteq> NA))"

text \<open>
  What the element-wise operations compute on cells that are numbers or missing: the
  test \<open>> 0\<close>, the quotient, and the demand level.
\<close>

definition positive_cell :: "cell \<Rightarrow> bool" where
  "positive_cell c = (case c of Num v \<Rightarrow> gt0 v | _ \<Rightarrow> False)"

definition div_cell :: "cell \<Rightarrow> cell \<Rightarrow> cell" where
  "div_cell a b =
     (case (a, b) of
        (Num x, Num y) \<Rightarrow> (case num_div x y of None \<Rightarrow> NA | Some v \<Rightarrow> Num v)
      | _ \<Rightarrow> NA)"

definition level_cell :: "cell \<Rightarrow> cell" where
  "level_cell c = (case c of Num v \<Rightarrow> demand_label v | _ \<Rightarrow> NA)"

text \<open>A frame with one more column at the end, computed row by row.\<close>

definition append_column :: "string \<Rightarrow> dtype \<Rightarrow> (cell list \<Rightarrow> cell) \<Rightarrow> frame \<Rightarrow> frame" where
  "append_column name d g f =
     f\<lparr>columns := columns f @ [(name, d)], rows := map (\<lambda>r. r @ [g r]) (rows f)\<rparr>"

text \<open>
  A settled frame is one that the transformation returns as it is: its rows are
  distinct, no numeric cell outside \<open>price_ratio\<close> is missing, every \<open>current_price\<close> is
  above 0, the columns \<open>price_ratio\<close> and \<open>demand_level\<close> hold what the steps write into
  them, and a \<open>price_ratio\<close> column is there only together with the two price columns it
  is computed from.
\<close>

definition positive_prices :: "frame \<Rightarrow> bool" where
  "positive_prices f =
     (case col_index ''current_price'' (columns f) of
        None \<Rightarrow> True
      | Some i \<Rightarrow> is_number (snd (columns f ! i)) \<and> (\<forall>r \<in> set (rows f). positive_cell (r ! i)))"

definition ratio_settled :: "frame \<Rightarrow> bool" where
  "ratio_settled f =
     (case (col_index ''current_price'' (columns f), col_index ''base_price'' (columns f)) of
        (Some i, Some j) \<Rightarrow>
          is_number (snd (columns f ! i)) \<and> is_number (snd (columns f ! j))
          \<and> (\<forall>r \<in> set (rows f). numeric_cell (r ! i) \<and> numeric_cell (r ! j))
          \<and> (\<exists>n. col_index ''price_ratio'' (columns f) = Some n
                 \<and> columns f ! n = (''price_ratio'', Float64)
                 \<and> (\<forall>r \<in> set (rows f). r ! n = div_cell (r ! i) (r ! j)))
      | _ \<Rightarrow> True)"

definition ratio_owned :: "frame \<Rightarrow> bool" where
  "ratio_owned f \<longleftrightarrow>
     col_index ''price_ratio'' (columns f) = None
     \<or> (col_index ''current_price'' (columns f) \<noteq> None
        \<and> col_index ''base_price'' (columns f) \<noteq> None)"

definition level_settled :: "frame \<Rightarrow> bool" where
  "level_settled f =
     (case col_index ''demand'' (columns f) of
        None \<Rightarrow> True
      | Some k \<Rightarrow>
          is_number (snd (columns f ! k))
          \<and> (\<forall>r \<in> set (rows f). numeric_cell (r ! k))
          \<and> (\<exists>n. col_index ''demand_level'' (columns f) = Some n
                 \<and> columns f ! n = (''demand_level'', Category)
                 \<and> (\<forall>r \<in> set (rows f). r ! n = level_cell (r ! k))))"

definition settled :: "frame \<Rightarrow> bool" where
  "settled f \<longleftrightarrow>
     wf_frame f \<and> distinct (rows f) \<and> no_missing_except ''price_ratio'' f
     \<and> positive_prices f \<and> ratio_settled f \<and> ratio_owned f \<and> level_settled f"

section \<open>Load: the state after a failed load\<close>

text \<open>
  C1 (evaluation at the failing artifact). A trained model holds ensemble 1 with its
  scaler; the artifact file unpickles to a dictionary with a \<open>model\<close> entry (ensemble 2)
  and no \<open>scaler\<close> entry. \<open>load_model\<close> returns \<open>False\<close>, and the in-memory model has been
  replaced by ensemble 2 while the scaler and the trained flag are the old ones.
\<close>

theorem load_model_partial_update:
  "load_model
     (\<lambda>p. if p = ''m.pkl'' then Some (Pickled (VDict [(''model'', VModel (Some (2::nat)))])) else None)
     \<lparr>model_path = ''m.pkl'', model = VModel (Some 1),
      scaler = VScaler (Some \<lparr>sc_mean = [0], sc_scale = [1]\<rparr>), is_trained = True\<rparr>
   = (\<lparr>model_path = ''m.pkl'', model = VModel (Some 2),
       scaler = VScaler (Some \<lparr>sc_mean = [0], sc_scale = [1]\<rparr>), is_trained = True\<rparr>, False)"
  by (simp add: load_model_def open_rb_def pickle_load_def)

section \<open>Prediction before training\<close>

text \<open>
  C3. On a freshly constructed model \<open>predict\<close> and \<open>predict_single\<close> return the
  "must be trained" error for every input, never a price; the same holds after any
  load that did not succeed.
\<close>

theorem untrained_predict_raises:
  "predict lib (init_model path) X = Inl (ValueError ''Model must be trained before prediction'')
   \<and> predict_single lib (init_model path) b d c t w s
       = Inl (ValueError ''Model must be trained before prediction'')
   \<and> (\<forall>fs st'. load_model fs (init_model path) = (st', False) \<longrightarrow>
         predict lib st' X = Inl (ValueError ''Model must be trained before prediction'')
       \<and> predict_single lib st' b d c t w s
           = Inl (ValueError ''Model must be trained before prediction''))"
  by (auto simp: predict_def predict_single_def init_model_def load_model_def Let_def
           split: sum.splits)

theorem untrained_predict_raises_witness:
  "load_model (\<lambda>p. None) (init_model ''m.pkl'' :: nat pricing_model) = (init_model ''m.pkl'', False)
   \<and> predict demo_sklearn (init_model ''m.pkl'') [[50, 450, 55, 18, 5, 2]]
       = Inl (ValueError ''Model must be trained before prediction'')
   \<and> predict_single demo_sklearn (init_model ''m.pkl'') 50 450 55 18 5 2
       = Inl (ValueError ''Model must be trained before prediction'')"
  using untrained_predict_raises [of demo_sklearn "''m.pkl''" "[[50, 450, 55, 18, 5, 2]]" 50 450 55 18 5 2]
  by (simp add: load_model_def open_rb_def)

section \<open>The scaler depends on the training split only\<close>

text \<open>A fitted scale is never zero, so the division in \<open>scale_row\<close> is a real division.\<close>

lemma column_scale_nonzero: "column_scale xs \<noteq> 0"
  by (simp add: column_scale_def Let_def)

lemma split_train_eq:
  assumes "distinct (permutation lib n)" "set (permutation lib n) = {..<n}"
    and "length X = n" "length X' = n"
    and "\<forall>i<n. i \<notin> set (test_indices lib n) \<longrightarrow> X' ! i = X ! i"
  shows "map (\<lambda>i. X' ! i) (train_indices lib n) = map (\<lambda>i. X ! i) (train_indices lib n)"
proof -
  have "\<And>i. i \<in> set (train_indices lib n) \<Longrightarrow> i < n \<and> i \<notin> set (test_indices lib n)"
  proof -
    fix i assume i: "i \<in> set (train_indices lib n)"
    then have d: "i \<in> set (drop (n_test lib n) (permutation lib n))"
      unfolding train_indices_def by (meson in_set_takeD)
    then have "i \<in> set (permutation lib n)" by (meson in_set_dropD)
    then have "i < n" using assms(2) by auto
    moreover have "i \<notin> set (test_indices lib n)"
      unfolding test_indices_def
      using d assms(1)
      by (metis append_take_drop_id distinct_append disjoint_iff)
    ultimately show "i < n \<and> i \<notin> set (test_indices lib n)" by simp
  qed
  then show ?thesis using assms(5) by auto
qed

lemma train_scaler_cases:
  "scaler (fst (train lib r now st (Some X) (Some y))) =
     (case train_test_split lib X y of
        Inl e \<Rightarrow> scaler st
      | Inr (X_train, X_test, y_train, y_test) \<Rightarrow>
          (case fit_scaler X_train of Inl e \<Rightarrow> VScaler None | Inr sc \<Rightarrow> VScaler (Some sc)))"
  by (simp add: train_def Let_def split: sum.splits prod.splits)

text \<open>
  C4. Two training inputs of the same size that agree on every sample outside the test
  split (features and targets) leave the same scaler in the model after \<open>train\<close>: the
  fitted means and scales are a function of the training split.
\<close>

theorem train_scaler_ignores_test_split:
  assumes "distinct (permutation lib n)" and "set (permutation lib n) = {..<n}"
    and "length X = n" and "length X' = n" and "length y = n" and "length y' = n"
    and "\<forall>i<n. i \<notin> set (test_indices lib n) \<longrightarrow> X' ! i = X ! i \<and> y' ! i = y ! i"
  shows "scaler (fst (train lib r now st (Some X') (Some y')))
       = scaler (fst (train lib r now st (Some X) (Some y)))"
proof -
  have eq: "map (\<lambda>i. X' ! i) (train_indices lib n) = map (\<lambda>i. X ! i) (train_indices lib n)"
    using assms by (intro split_train_eq) auto
  show ?thesis
    unfolding train_scaler_cases train_test_split_def Let_def
    using assms(3-6) eq by (simp del: map_eq_conv)
qed

theorem train_scaler_ignores_test_split_witness:
  "scaler (fst (train demo_sklearn demo_rng ''t'' (init_model ''m.pkl'')
                  (Some [[1], [2], [3], [4], [70]]) (Some [1, 2, 3, 4, 50])))
   = scaler (fst (train demo_sklearn demo_rng ''t'' (init_model ''m.pkl'')
                  (Some [[1], [2], [3], [4], [5]]) (Some [1, 2, 3, 4, 5])))"
proof -
  have p: "permutation demo_sklearn 5 = [4, 3, 2, 1, 0]"
    by (simp add: demo_sklearn_def upt_rec)
  have t: "test_indices demo_sklearn 5 = [4]"
    by (simp add: test_indices_def p) (simp add: demo_sklearn_def)
  have h1: "distinct (permutation demo_sklearn 5)" by (simp add: p)
  have h2: "set (permutation demo_sklearn 5) = {..<5}" by (auto simp: p)
  have h3: "\<forall>i<5. i \<notin> set (test_indices demo_sklearn 5) \<longrightarrow>
              [[1], [2], [3], [4], [70::real]] ! i = [[1], [2], [3], [4], [5]] ! i
            \<and> [1, 2, 3, 4, 50::real] ! i = [1, 2, 3, 4, 5] ! i"
    by (auto simp: t nth_Cons')
  show ?thesis
    by (rule train_scaler_ignores_test_split [OF h1 h2 _ _ _ _ h3]) simp_all
qed

section \<open>Feature importance\<close>

text \<open>
  C6 (counterexample). A model trained with success on a feature matrix of two columns
  returns a mapping with two keys, not six. A model trained with success on six columns
  whose ensemble has no split returns the six keys with weight zero each: the weights
  sum to zero, not to one.
\<close>

theorem feature_importance_counterexamples:
  "snd (train demo_sklearn demo_rng ''t'' (init_model ''m.pkl'')
      (Some [[1, 1], [1, 1], [1, 1], [1, 1], [1, 1]]) (Some [1, 2, 3, 4, 0]))
     = Inr \<lparr>mse = 0, rmse = 0, r2 = 0, trained_at = ''t''\<rparr>
   \<and> is_trained (fst (train demo_sklearn demo_rng ''t'' (init_model ''m.pkl'')
      (Some [[1, 1], [1, 1], [1, 1], [1, 1], [1, 1]]) (Some [1, 2, 3, 4, 0])))
   \<and> get_feature_importance demo_sklearn
       (fst (train demo_sklearn demo_rng ''t'' (init_model ''m.pkl'')
          (Some [[1, 1], [1, 1], [1, 1], [1, 1], [1, 1]]) (Some [1, 2, 3, 4, 0])))
     = Inr [(''base_price'', 1 / 2), (''demand'', 1 / 2)]
   \<and> snd (train demo_stumps demo_rng ''t'' (init_model ''m.pkl'')
      (Some [[1, 1, 1, 1, 1, 1], [1, 1, 1, 1, 1, 1], [1, 1, 1, 1, 1, 1]]) (Some [0, 0, 0]))
     = Inr \<lparr>mse = 0, rmse = 0, r2 = 0, trained_at = ''t''\<rparr>
   \<and> is_trained (fst (train demo_stumps demo_rng ''t'' (init_model ''m.pkl'')
      (Some [[1, 1, 1, 1, 1, 1], [1, 1, 1, 1, 1, 1], [1, 1, 1, 1, 1, 1]]) (Some [0, 0, 0])))
   \<and> get_feature_importance demo_stumps
       (fst (train demo_stumps demo_rng ''t'' (init_model ''m.pkl'')
          (Some [[1, 1, 1, 1, 1, 1], [1, 1, 1, 1, 1, 1], [1, 1, 1, 1, 1, 1]]) (Some [0, 0, 0])))
     = Inr [(''base_price'', 0), (''demand'', 0), (''competition_price'', 0),
            (''time_of_day'', 0), (''day_of_week'', 0), (''season'', 0)]"
proof -
  have two: "train demo_sklearn demo_rng ''t'' (init_model ''m.pkl'')
      (Some [[1, 1], [1, 1], [1, 1], [1, 1], [1, 1]]) (Some [1, 2, 3, 4, 0])
     = (\<lparr>model_path = ''m.pkl'', model = VModel (Some 2),
         scaler = VScaler (Some \<lparr>sc_mean = [1, 1], sc_scale = [1, 1]\<rparr>),
         is_trained = True\<rparr>,
        Inr \<lparr>mse = 0, rmse = 0, r2 = 0, trained_at = ''t''\<rparr>)"
    by (simp add: train_def train_test_split_def test_indices_def train_indices_def Let_def
      demo_sklearn_def fit_scaler_def columns_of_def scaler_transform_def scale_row_def
      column_mean_def column_scale_def init_model_def upt_rec)
  have six: "train demo_stumps demo_rng ''t'' (init_model ''m.pkl'')
      (Some [[1, 1, 1, 1, 1, 1], [1, 1, 1, 1, 1, 1], [1, 1, 1, 1, 1, 1]]) (Some [0, 0, 0])
     = (\<lparr>model_path = ''m.pkl'', model = VModel (Some 6),
         scaler = VScaler (Some \<lparr>sc_mean = [1, 1, 1, 1, 1, 1], sc_scale = [1, 1, 1, 1, 1, 1]\<rparr>),
         is_trained = True\<rparr>,
        Inr \<lparr>mse = 0, rmse = 0, r2 = 0, trained_at = ''t''\<rparr>)"
    by (simp add: train_def train_test_split_def test_indices_def train_indices_def Let_def
      demo_stumps_def demo_sklearn_def fit_scaler_def columns_of_def scaler_transform_def
      scale_row_def column_mean_def column_scale_def init_model_def upt_rec)
  have r2: "replicate 2 (1 / 2 :: real) = [1 / 2, 1 / 2]"
    by (simp add: numeral_2_eq_2)
  have r6: "replicate 6 (0 :: real) = [0, 0, 0, 0, 0, 0]"
    by (simp add: eval_nat_numeral)
  have g2: "get_feature_importance demo_sklearn
       \<lparr>model_path = ''m.pkl'', model = VModel (Some 2),
         scaler = VScaler (Some \<lparr>sc_mean = [1, 1], sc_scale = [1, 1]\<rparr>),
         is_trained = True\<rparr>
     = Inr [(''base_price'', 1 / 2), (''demand'', 1 / 2)]"
    by (simp add: get_feature_importance_def demo_sklearn_def feature_names_def r2)
  have g6: "get_feature_importance demo_stumps
       \<lparr>model_path = ''m.pkl'', model = VModel (Some 6),
         scaler = VScaler (Some \<lparr>sc_mean = [1, 1, 1, 1, 1, 1], sc_scale = [1, 1, 1, 1, 1, 1]\<rparr>),
         is_trained = True\<rparr>
     = Inr [(''base_price'', 0), (''demand'', 0), (''competition_price'', 0),
            (''time_of_day'', 0), (''day_of_week'', 0), (''season'', 0)]"
    by (simp add: get_feature_importance_def demo_stumps_def demo_sklearn_def feature_names_def r6)
  show ?thesis
    by (simp only: two six g2 g6 fst_conv snd_conv pricing_model.simps simp_thms)
qed

lemma synthetic_rows_six:
  "row \<in> set (fst (fst (generate_training_data r n))) \<Longrightarrow> length row = 6"
  by (auto simp: generate_training_data_def Let_def split: prod.splits)

lemma train_success_model:
  assumes "train lib r now st fo to = (st', Inr mt)"
  obtains X y X_train X_test y_train y_test sc Xs m where
    "(X, y) = (case (fo, to) of (Some X, Some y) \<Rightarrow> (X, y) | _ \<Rightarrow> fst (generate_training_data r 10000))"
    "train_test_split lib X y = Inr (X_train, X_test, y_train, y_test)"
    "fit_scaler X_train = Inr sc"
    "scaler_transform sc X_train = Inr Xs"
    "rf_fit lib Xs y_train = Inr m"
    "model st' = VModel (Some m)" "is_trained st'"
  using assms
  by (auto simp: train_def Let_def split: sum.splits prod.splits)

lemma split_train_rows:
  assumes "train_test_split lib X y = Inr (X_train, X_test, y_train, y_test)"
    and "set (permutation lib (length X)) = {..<length X}"
  shows "set X_train \<subseteq> set X"
proof -
  have "\<And>i. i \<in> set (train_indices lib (length X)) \<Longrightarrow> i < length X"
    unfolding train_indices_def using assms(2)
    by (metis in_set_dropD in_set_takeD lessThan_iff)
  then show ?thesis
    using assms(1) by (auto simp: train_test_split_def Let_def split: if_splits)
qed

text \<open>
  C6 (amended). After a successful \<open>train\<close> on six-column features (the synthetic
  default or a given matrix whose rows all have six entries), \<open>get_feature_importance\<close>
  returns exactly the six feature names in order, each with the weight the ensemble's
  \<open>feature_importances_\<close> has at that position; every weight is non-negative, and the
  weights sum to one, or are all zero when no tree of the ensemble has a split. On an
  untrained model it returns the empty mapping and no error.
\<close>

theorem feature_importance_six_features:
  assumes ok: "train lib r now st features targets = (st', Inr mt)"
    and six: "\<forall>X. features = Some X \<longrightarrow> (\<forall>row \<in> set X. length row = 6)"
    and perm: "\<forall>n. set (permutation lib n) = {..<n}"
    and lib: "importances_contract lib"
  shows "(\<exists>m imp. model st' = VModel (Some m)
           \<and> get_feature_importance lib st' = Inr imp
           \<and> map fst imp = feature_names
           \<and> map snd imp = rf_importances lib m
           \<and> (\<forall>v \<in> set (map snd imp). 0 \<le> v)
           \<and> (sum_list (map snd imp) = 1 \<or> (\<forall>v \<in> set (map snd imp). v = 0)))
       \<and> get_feature_importance lib (init_model path) = Inr []"
proof -
  from ok obtain X y X_train X_test y_train y_test sc Xs m where
    inp: "(X, y) = (case (features, targets) of (Some X, Some y) \<Rightarrow> (X, y)
                    | _ \<Rightarrow> fst (generate_training_data r 10000))"
    and sp: "train_test_split lib X y = Inr (X_train, X_test, y_train, y_test)"
    and fit: "fit_scaler X_train = Inr sc"
    and tr: "scaler_transform sc X_train = Inr Xs"
    and rf: "rf_fit lib Xs y_train = Inr m"
    and st': "model st' = VModel (Some m)" "is_trained st'"
    by (rule train_success_model)
  have rows: "\<forall>row \<in> set X. length row = 6"
  proof (cases "\<exists>X0 y0. features = Some X0 \<and> targets = Some y0")
    case True
    then show ?thesis using inp six by auto
  next
    case False
    then have "X = fst (fst (generate_training_data r 10000))"
      using inp by (auto split: option.splits dest: arg_cong [where f = fst])
    then show ?thesis using synthetic_rows_six by blast
  qed
  have sub: "set X_train \<subseteq> set X"
    using sp perm by (blast intro: split_train_rows [THEN subsetD])
  from lib rf have ne: "Xs \<noteq> []"
    and len: "length (rf_importances lib m) = length (hd Xs)"
    and pos: "\<forall>v \<in> set (rf_importances lib m). 0 \<le> v"
    and sum1: "sum_list (rf_importances lib m) = 1 \<or> (\<forall>v \<in> set (rf_importances lib m). v = 0)"
    unfolding importances_contract_def by blast+
  from tr have Xs: "Xs = map (scale_row sc) X_train"
    by (auto simp: scaler_transform_def split: if_splits)
  with ne have "X_train \<noteq> []" by auto
  then have "hd X_train \<in> set X" using sub by auto
  then have "length (hd Xs) = 6"
    using rows Xs \<open>X_train \<noteq> []\<close> by (simp add: hd_map scale_row_def)
  with len have l6: "length (rf_importances lib m) = length feature_names"
    by (simp add: feature_names_def)
  define imp where "imp = zip feature_names (rf_importances lib m)"
  have g: "get_feature_importance lib st' = Inr imp"
    using st' by (simp add: get_feature_importance_def imp_def)
  have f: "map fst imp = feature_names" and s: "map snd imp = rf_importances lib m"
    using l6 by (simp_all add: imp_def)
  have "model st' = VModel (Some m)
           \<and> get_feature_importance lib st' = Inr imp
           \<and> map fst imp = feature_names
           \<and> map snd imp = rf_importances lib m
           \<and> (\<forall>v \<in> set (map snd imp). 0 \<le> v)
           \<and> (sum_list (map snd imp) = 1 \<or> (\<forall>v \<in> set (map snd imp). v = 0))"
    unfolding s using st'(1) g f pos sum1 by simp
  then have "\<exists>m imp. model st' = VModel (Some m)
           \<and> get_feature_importance lib st' = Inr imp
           \<and> map fst imp = feature_names
           \<and> map snd imp = rf_importances lib m
           \<and> (\<forall>v \<in> set (map snd imp). 0 \<le> v)
           \<and> (sum_list (map snd imp) = 1 \<or> (\<forall>v \<in> set (map snd imp). v = 0))"
    by blast
  moreover have "get_feature_importance lib (init_model path) = Inr []"
    by (simp add: get_feature_importance_def init_model_def)
  ultimately show ?thesis by simp
qed

theorem feature_importance_six_features_witness:
  "train demo_sklearn demo_rng ''t'' (init_model ''m.pkl'')
      (Some [[1, 1, 1, 1, 1, 1], [1, 1, 1, 1, 1, 1], [1, 1, 1, 1, 1, 1]]) (Some [1, 2, 0])
     = (\<lparr>model_path = ''m.pkl'', model = VModel (Some 6),
         scaler = VScaler (Some \<lparr>sc_mean = [1, 1, 1, 1, 1, 1], sc_scale = [1, 1, 1, 1, 1, 1]\<rparr>),
         is_trained = True\<rparr>,
        Inr \<lparr>mse = 0, rmse = 0, r2 = 0, trained_at = ''t''\<rparr>)
   \<and> importances_contract demo_sklearn
   \<and> importances_contract demo_stumps
   \<and> (\<exists>imp. get_feature_importance demo_sklearn
              \<lparr>model_path = ''m.pkl'', model = VModel (Some 6),
               scaler = VScaler (Some \<lparr>sc_mean = [1, 1, 1, 1, 1, 1], sc_scale = [1, 1, 1, 1, 1, 1]\<rparr>),
               is_trained = True\<rparr> = Inr imp
           \<and> map fst imp = feature_names
           \<and> map snd imp = rf_importances demo_sklearn 6
           \<and> (\<forall>v \<in> set (map snd imp). 0 \<le> v)
           \<and> sum_list (map snd imp) = 1)"
proof -
  have tr: "train demo_sklearn demo_rng ''t'' (init_model ''m.pkl'')
      (Some [[1, 1, 1, 1, 1, 1], [1, 1, 1, 1, 1, 1], [1, 1, 1, 1, 1, 1]]) (Some [1, 2, 0])
     = (\<lparr>model_path = ''m.pkl'', model = VModel (Some 6),
         scaler = VScaler (Some \<lparr>sc_mean = [1, 1, 1, 1, 1, 1], sc_scale = [1, 1, 1, 1, 1, 1]\<rparr>),
         is_trained = True\<rparr>,
        Inr \<lparr>mse = 0, rmse = 0, r2 = 0, trained_at = ''t''\<rparr>)"
    by (simp add: train_def train_test_split_def test_indices_def train_indices_def Let_def
      demo_sklearn_def fit_scaler_def columns_of_def scaler_transform_def scale_row_def
      column_mean_def column_scale_def init_model_def upt_rec)
  have six: "\<forall>X. Some [[1, 1, 1, 1, 1, 1], [1, 1, 1, 1, 1, 1], [1, 1, 1, 1, 1, 1::real]] = Some X
               \<longrightarrow> (\<forall>row \<in> set X. length row = 6)"
    by auto
  have perm: "\<forall>n. set (permutation demo_sklearn n) = {..<n}"
    by (auto simp: demo_sklearn_def)
  have lib: "importances_contract demo_sklearn"
    by (auto simp: importances_contract_def demo_sklearn_def sum_list_replicate split: if_splits)
  have lib0: "importances_contract demo_stumps"
    by (auto simp: importances_contract_def demo_stumps_def demo_sklearn_def split: if_splits)
  have s6: "sum_list (rf_importances demo_sklearn 6) = 1"
    by (simp add: demo_sklearn_def sum_list_replicate)
  let ?ST = "\<lparr>model_path = ''m.pkl'', model = VModel (Some (6::nat)),
               scaler = VScaler (Some \<lparr>sc_mean = [1, 1, 1, 1, 1, 1], sc_scale = [1, 1, 1, 1, 1, 1]\<rparr>),
               is_trained = True\<rparr>"
  from feature_importance_six_features [OF tr six perm lib, of "''m.pkl''"]
  obtain m imp where a: "model ?ST = VModel (Some m)"
    and b: "get_feature_importance demo_sklearn ?ST = Inr imp"
    and c: "map fst imp = feature_names"
    and d: "map snd imp = rf_importances demo_sklearn m"
    and e: "\<forall>v \<in> set (map snd imp). 0 \<le> v"
    by blast
  from a have m6: "m = 6" by simp
  have f: "sum_list (map snd imp) = 1" unfolding d m6 by (rule s6)
  show ?thesis
    using tr lib lib0 b c d [unfolded m6] e f by blast
qed

section \<open>Validation counts\<close>

lemma duplicated_from_length: "length (duplicated_from seen rs) = length rs"
  by (induction rs arbitrary: seen) auto

lemma duplicated_from_nth:
  "i < length rs \<Longrightarrow> duplicated_from seen rs ! i \<longleftrightarrow> rs ! i \<in> set seen \<union> set (take i rs)"
proof (induction rs arbitrary: seen i)
  case Nil
  then show ?case by simp
next
  case (Cons r rs)
  then show ?case by (cases i) auto
qed

lemma duplicated_from_count:
  "count_true (duplicated_from seen rs) + card (set rs - set seen) = length rs"
proof (induction rs arbitrary: seen)
  case Nil
  then show ?case by (simp add: count_true_def)
next
  case (Cons r rs)
  have ih: "count_true (duplicated_from (r # seen) rs) + card (set rs - set (r # seen)) = length rs"
    by (rule Cons.IH)
  have l: "length (r # rs) = Suc (length rs)" by simp
  show ?case
  proof (cases "r \<in> set seen")
    case True
    have c1: "count_true (duplicated_from seen (r # rs))
                = Suc (count_true (duplicated_from (r # seen) rs))"
      using True by (simp add: count_true_def)
    have "set (r # rs) - set seen = set rs - set (r # seen)"
      using True by auto
    then have c2: "card (set (r # rs) - set seen) = card (set rs - set (r # seen))"
      by (rule arg_cong)
    show ?thesis unfolding c1 c2 l using ih by linarith
  next
    case False
    have c1: "count_true (duplicated_from seen (r # rs))
                = count_true (duplicated_from (r # seen) rs)"
      using False by (simp add: count_true_def)
    have "set (r # rs) - set seen = insert r (set rs - set (r # seen))"
      using False by auto
    then have "card (set (r # rs) - set seen) = card (insert r (set rs - set (r # seen)))"
      by (rule arg_cong)
    also have "\<dots> = Suc (card (set rs - set (r # seen)))"
      by (rule card_insert_disjoint) auto
    finally have c2: "card (set (r # rs) - set seen) = Suc (card (set rs - set (r # seen)))" .
    show ?thesis unfolding c1 c2 l using ih by linarith
  qed
qed

lemma duplicated_count: "count_true (duplicated rs) + card (set rs) = length rs"
  using duplicated_from_count [of "[]" rs] by (simp add: duplicated_def)

lemma count_true_nth: "count_true bs = length (filter (\<lambda>i. bs ! i) [0..<length bs])"
proof (induction bs rule: rev_induct)
  case Nil
  then show ?case by (simp add: count_true_def)
next
  case (snoc b bs)
  have "filter (\<lambda>i. (bs @ [b]) ! i) [0..<length bs] = filter (\<lambda>i. bs ! i) [0..<length bs]"
    by (rule filter_cong) (auto simp: nth_append)
  with snoc show ?case by (simp add: count_true_def)
qed

lemma duplicated_earlier:
  "count_true (duplicated rs) = length (filter (\<lambda>i. \<exists>j<i. rs ! j = rs ! i) [0..<length rs])"
proof -
  have "filter (\<lambda>i. duplicated rs ! i) [0..<length rs]
      = filter (\<lambda>i. \<exists>j<i. rs ! j = rs ! i) [0..<length rs]"
  proof (rule filter_cong [OF refl])
    fix i assume "i \<in> set [0..<length rs]"
    then have i: "i < length rs" by simp
    then have "duplicated rs ! i \<longleftrightarrow> rs ! i \<in> set (take i rs)"
      by (simp add: duplicated_def duplicated_from_nth)
    also have "\<dots> \<longleftrightarrow> (\<exists>j<i. rs ! j = rs ! i)"
      using i by (auto simp: in_set_conv_nth)
    finally show "duplicated rs ! i \<longleftrightarrow> (\<exists>j<i. rs ! j = rs ! i)" .
  qed
  then show ?thesis
    using count_true_nth [of "duplicated rs"]
    by (simp add: duplicated_def duplicated_from_length)
qed

lemma sequence_err_total:
  "(\<forall>x \<in> set xs. \<exists>v. x = Inr v) \<Longrightarrow> \<exists>vs. sequence_err xs = Inr vs"
  by (induction xs) auto

lemma numeric_cell_cmp0: "numeric_cell c \<Longrightarrow> \<exists>v. cell_cmp0 p c = Inr v"
  by (cases c) (auto simp: numeric_cell_def)

lemma numeric_cmp0_total:
  "is_number d \<Longrightarrow> list_all numeric_cell cells \<Longrightarrow> \<exists>marks. series_cmp0 p d cells = Inr marks"
  unfolding series_cmp0_def
  by (auto simp: is_number_def list_all_iff intro!: sequence_err_total numeric_cell_cmp0)

lemma negative_price_count_total:
  assumes "numeric_column ''current_price'' f"
  shows "\<exists>v. negative_price_count f = Inr v"
proof (cases "col_index ''current_price'' (columns f)")
  case None
  then show ?thesis by (simp add: negative_price_count_def)
next
  case (Some i)
  with assms have "is_number (snd (columns f ! i))" "list_all numeric_cell (column i f)"
    by (simp_all add: numeric_column_def)
  then obtain marks where "series_cmp0 lt0 (snd (columns f ! i)) (column i f) = Inr marks"
    using numeric_cmp0_total by blast
  with Some show ?thesis by (simp add: negative_price_count_def)
qed

lemma demand_outlier_count_total:
  assumes "numeric_column ''demand'' f"
  shows "\<exists>v. demand_outlier_count f = Inr v"
proof (cases "col_index ''demand'' (columns f)")
  case None
  then show ?thesis by (simp add: demand_outlier_count_def)
next
  case (Some j)
  with assms have "is_number (snd (columns f ! j))"
    by (simp add: numeric_column_def)
  then have "series_values (snd (columns f ! j)) (column j f) = Inr (map cell_value (column j f))"
    by (auto simp: series_values_def is_number_def)
  with Some show ?thesis by (simp add: demand_outlier_count_def)
qed

lemma validate_data_total:
  assumes "numeric_column ''current_price'' f" and "numeric_column ''demand'' f"
  shows "\<exists>rep. validate_data now f = Inr rep"
proof -
  obtain a where a: "negative_price_count f = Inr a"
    using negative_price_count_total [OF assms(1)] by blast
  obtain b where b: "demand_outlier_count f = Inr b"
    using demand_outlier_count_total [OF assms(2)] by blast
  show ?thesis by (simp add: validate_data_def a b)
qed

lemma validate_data_fields:
  assumes "validate_data now f = Inr rep"
  shows "total_records rep = length (rows f)"
    and "duplicate_records rep = count_true (duplicated (rows f))"
proof -
  from assms obtain a b where
    "rep = \<lparr>total_records = length (rows f), missing_values = isnull_sum f,
            duplicate_records = count_true (duplicated (rows f)),
            data_types = map (\<lambda>(name, d). (name, dtype_str d)) (columns f),
            validated_at = now, negative_prices = a, demand_outliers = b\<rparr>"
    by (auto simp: validate_data_def split: sum.splits)
  then show "total_records rep = length (rows f)"
    and "duplicate_records rep = count_true (duplicated (rows f))"
    by simp_all
qed

text \<open>
  C7. On a frame of the model, when \<open>validate_data\<close> returns a report, \<open>total_records\<close>
  is the number of rows, \<open>duplicate_records\<close> is the number of rows with an equal row
  earlier in the sequence, and \<open>duplicate_records\<close> plus the number of distinct rows is
  \<open>total_records\<close>. It does return a report on every frame whose price and demand
  columns are plain numbers.
\<close>

theorem validate_counts:
  assumes "wf_frame f"
  shows "(numeric_column ''current_price'' f \<and> numeric_column ''demand'' f
      \<longrightarrow> (\<exists>rep. validate_data now f = Inr rep))
   \<and> (\<forall>rep. validate_data now f = Inr rep \<longrightarrow>
         total_records rep = length (rows f)
       \<and> duplicate_records rep
           = length (filter (\<lambda>i. \<exists>j<i. rows f ! j = rows f ! i) [0..<length (rows f)])
       \<and> duplicate_records rep + card (set (rows f)) = total_records rep)"
proof (intro conjI impI allI)
  assume "numeric_column ''current_price'' f \<and> numeric_column ''demand'' f"
  then show "\<exists>rep. validate_data now f = Inr rep"
    using validate_data_total by blast
next
  fix rep assume v: "validate_data now f = Inr rep"
  show "total_records rep = length (rows f)"
    by (rule validate_data_fields(1) [OF v])
  show "duplicate_records rep
           = length (filter (\<lambda>i. \<exists>j<i. rows f ! j = rows f ! i) [0..<length (rows f)])"
    by (simp only: validate_data_fields(2) [OF v] duplicated_earlier)
  show "duplicate_records rep + card (set (rows f)) = total_records rep"
    by (simp only: validate_data_fields [OF v] duplicated_count)
qed

theorem validate_counts_witness:
  "wf_frame
     \<lparr>columns = [(''current_price'', Float64), (''demand'', Int64)],
      rows = [[Num (Fin 5), Num (Fin 100)], [Num (Fin 7), Num (Fin 80)], [Num (Fin 5), Num (Fin 100)]]\<rparr>
   \<and> numeric_column ''current_price''
     \<lparr>columns = [(''current_price'', Float64), (''demand'', Int64)],
      rows = [[Num (Fin 5), Num (Fin 100)], [Num (Fin 7), Num (Fin 80)], [Num (Fin 5), Num (Fin 100)]]\<rparr>
   \<and> numeric_column ''demand''
     \<lparr>columns = [(''current_price'', Float64), (''demand'', Int64)],
      rows = [[Num (Fin 5), Num (Fin 100)], [Num (Fin 7), Num (Fin 80)], [Num (Fin 5), Num (Fin 100)]]\<rparr>
   \<and> (\<exists>rep. validate_data ''t''
         \<lparr>columns = [(''current_price'', Float64), (''demand'', Int64)],
          rows = [[Num (Fin 5), Num (Fin 100)], [Num (Fin 7), Num (Fin 80)], [Num (Fin 5), Num (Fin 100)]]\<rparr>
         = Inr rep \<and> total_records rep = 3 \<and> duplicate_records rep = 1)"
proof -
  let ?F = "\<lparr>columns = [(''current_price'', Float64), (''demand'', Int64)],
      rows = [[Num (Fin 5), Num (Fin 100)], [Num (Fin 7), Num (Fin 80)], [Num (Fin 5), Num (Fin 100)]]\<rparr>"
  have w: "wf_frame ?F" by (simp add: wf_frame_def)
  have a: "numeric_column ''current_price'' ?F"
    by (simp add: numeric_column_def is_number_def column_def numeric_cell_def)
  have b: "numeric_column ''demand'' ?F"
    by (simp add: numeric_column_def is_number_def column_def numeric_cell_def)
  have c: "card (set (rows ?F)) = 2"
    by (simp add: card_insert_if)
  from validate_counts [OF w, of "''t''"] a b obtain rep where
    r: "validate_data ''t'' ?F = Inr rep" by blast
  with validate_counts [OF w, of "''t''"] have
    "total_records rep = length (rows ?F)"
    "duplicate_records rep + card (set (rows ?F)) = total_records rep" by blast+
  with c have "total_records rep = 3" "duplicate_records rep = 1" by simp_all
  with w a b r show ?thesis by blast
qed

section \<open>Demand levels\<close>

text \<open>
  C8 (evaluation at the failing record). A record with a positive price and demand 0
  comes out of \<open>transform_data\<close> with no \<open>demand_level\<close>: the lowest bin is open at 0.
  The second record shows the edge value 100 in the bin \<open>low\<close>.
\<close>

theorem transform_zero_demand_unlabelled:
  "transform_data
     \<lparr>columns = [(''current_price'', Float64), (''demand'', Int64)],
      rows = [[Num (Fin 10), Num (Fin 0)], [Num (Fin 10), Num (Fin 100)]]\<rparr>
   = (\<lparr>columns = [(''current_price'', Float64), (''demand'', Int64), (''demand_level'', Category)],
       rows = [[Num (Fin 10), Num (Fin 0), NA], [Num (Fin 10), Num (Fin 100), Cat ''low'']]\<rparr>,
      [(INFO, ''Transformed data'')])"
  by code_simp

text \<open>Every demand above 0 has one of the four labels.\<close>

lemma demand_label_positive:
  "0 < d \<Longrightarrow> demand_label (Fin d) \<in> {Cat ''low'', Cat ''medium'', Cat ''high'', Cat ''very_high''}"
  by (simp add: demand_label_def gt0_def num_le_def)

section \<open>The fallback of the transformation\<close>

text \<open>
  C9 (counterexample). A frame whose \<open>current_price\<close> column holds a string makes the
  comparison raise; \<open>transform_data\<close> returns the frame as it was, and the one record it
  logs is at level \<open>ERROR\<close>: there is no record at level \<open>WARNING\<close>.
\<close>

theorem transform_failure_logs_error:
  "transform_steps
     \<lparr>columns = [(''current_price'', Object)], rows = [[Str ''abc'']]\<rparr>
     = Inl (TypeError ''comparison with int'')
   \<and> transform_data \<lparr>columns = [(''current_price'', Object)], rows = [[Str ''abc'']]\<rparr>
     = (\<lparr>columns = [(''current_price'', Object)], rows = [[Str ''abc'']]\<rparr>,
        [(ERROR, ''Failed to transform data'')])
   \<and> WARNING \<notin> fst ` set (snd (transform_data
         \<lparr>columns = [(''current_price'', Object)], rows = [[Str ''abc'']]\<rparr>))"
  by code_simp

text \<open>
  C9 (amended). Whenever a step of the transformation raises, \<open>transform_data\<close> returns
  its argument unchanged and logs the failure as one record at level \<open>ERROR\<close>.
\<close>

theorem transform_failure_returns_input:
  "transform_steps data = Inl e \<Longrightarrow>
     transform_data data = (data, [(ERROR, ''Failed to transform data'')])"
  by (simp add: transform_data_def)

theorem transform_failure_returns_input_witness:
  "transform_steps \<lparr>columns = [(''current_price'', Object)], rows = [[Str ''abc'']]\<rparr>
     = Inl (TypeError ''comparison with int'')
   \<and> transform_data \<lparr>columns = [(''current_price'', Object)], rows = [[Str ''abc'']]\<rparr>
     = (\<lparr>columns = [(''current_price'', Object)], rows = [[Str ''abc'']]\<rparr>,
        [(ERROR, ''Failed to transform data'')])"
proof -
  have f: "transform_steps \<lparr>columns = [(''current_price'', Object)], rows = [[Str ''abc'']]\<rparr>
     = Inl (TypeError ''comparison with int'')"
    by code_simp
  from transform_failure_returns_input [OF f] f show ?thesis by simp
qed

section \<open>The sample generator\<close>

lemma day_loop_seeded:
  assumes "day_loop r pid bp s1 ds g = Inr (recs1, h1)"
    and "day_loop r pid bp s2 ds g = Inr (recs2, h2)"
  shows "map seeded_fields recs1 = map seeded_fields recs2 \<and> h1 = h2"
  using assms
proof (induction ds arbitrary: g recs1 recs2 h1 h2)
  case Nil
  then show ?case by simp
next
  case (Cons d ds)
  obtain dm g1 where a: "randint r 50 500 g = (dm, g1)" by (cases "randint r 50 500 g")
  obtain u1 g2 where b: "uniform r (17 / 20) (23 / 20) g1 = (u1, g2)"
    by (cases "uniform r (17 / 20) (23 / 20) g1")
  obtain u2 g3 where c: "uniform r (9 / 10) (11 / 10) g2 = (u2, g3)"
    by (cases "uniform r (9 / 10) (11 / 10) g2")
  from Cons.prems(1) obtain rest1 where
    r1: "day_loop r pid bp s1 ds g3 = Inr (rest1, h1)" and
    e1: "map seeded_fields recs1
          = (product_label pid, round2 bp, round2 (bp * u2), dm, round2 (bp * u1)) # map seeded_fields rest1"
    by (auto simp: a b c seeded_fields_def split: sum.splits)
  from Cons.prems(2) obtain rest2 where
    r2: "day_loop r pid bp s2 ds g3 = Inr (rest2, h2)" and
    e2: "map seeded_fields recs2
          = (product_label pid, round2 bp, round2 (bp * u2), dm, round2 (bp * u1)) # map seeded_fields rest2"
    by (auto simp: a b c seeded_fields_def split: sum.splits)
  from Cons.IH [OF r1 r2] e1 e2 show ?case by simp
qed

lemma product_loop_seeded:
  assumes "product_loop r s1 days pids g = Inr (recs1, h1)"
    and "product_loop r s2 days pids g = Inr (recs2, h2)"
  shows "map seeded_fields recs1 = map seeded_fields recs2 \<and> h1 = h2"
  using assms
proof (induction pids arbitrary: g recs1 recs2 h1 h2)
  case Nil
  then show ?case by simp
next
  case (Cons p ps)
  obtain bp g1 where a: "uniform r 10 200 g = (bp, g1)" by (cases "uniform r 10 200 g")
  from Cons.prems(1) obtain rows1 k1 rest1 where
    d1: "day_loop r p bp s1 (map int [0..<nat days]) g1 = Inr (rows1, k1)" and
    p1: "product_loop r s1 days ps k1 = Inr (rest1, h1)" and
    e1: "recs1 = rows1 @ rest1"
    by (auto simp: a split: sum.splits)
  from Cons.prems(2) obtain rows2 k2 rest2 where
    d2: "day_loop r p bp s2 (map int [0..<nat days]) g1 = Inr (rows2, k2)" and
    p2: "product_loop r s2 days ps k2 = Inr (rest2, h2)" and
    e2: "recs2 = rows2 @ rest2"
    by (auto simp: a split: sum.splits)
  from day_loop_seeded [OF d1 d2] have k: "k1 = k2" and m: "map seeded_fields rows1 = map seeded_fields rows2"
    by simp_all
  from Cons.IH [OF p1 p2 [folded k]] m e1 e2 show ?case by simp
qed

lemma day_loop_length:
  "day_loop r pid bp s ds g = Inr (recs, h) \<Longrightarrow> length recs = length ds"
proof (induction ds arbitrary: g recs h)
  case Nil
  then show ?case by simp
next
  case (Cons d ds)
  then show ?case
    by (auto simp: Let_def split: sum.splits prod.splits)
qed

lemma product_loop_length:
  "product_loop r s days pids g = Inr (recs, h) \<Longrightarrow> length recs = length pids * nat days"
proof (induction pids arbitrary: g recs h)
  case Nil
  then show ?case by simp
next
  case (Cons p ps)
  obtain bp g1 where a: "uniform r 10 200 g = (bp, g1)" by (cases "uniform r 10 200 g")
  from Cons.prems obtain rows1 k1 rest1 where
    d1: "day_loop r p bp s (map int [0..<nat days]) g1 = Inr (rows1, k1)" and
    p1: "product_loop r s days ps k1 = Inr (rest1, h)" and
    e1: "recs = rows1 @ rest1"
    by (auto simp: a split: sum.splits)
  from day_loop_length [OF d1] Cons.IH [OF p1] e1 show ?case by simp
qed

lemma sample_records_start:
  assumes "sample_records r now g n d = Inr (recs, h)"
  obtains start where "datetime_sub now d = Inr start"
    and "product_loop r start d [1..<nat (n + 1)] (rng_seed r 42) = Inr (recs, h)"
  using assms
  by (auto simp: sample_records_def timedelta_days_def split: sum.splits if_splits)

lemma round_half_even_floor: "\<lfloor>x\<rfloor> \<le> round_half_even x"
  by (simp add: round_half_even_def Let_def)

lemma round2_positive:
  assumes "1 \<le> x"
  shows "0 < round2 x"
proof -
  have "(100::real) \<le> x * 100" using assms by simp
  then have "100 \<le> \<lfloor>x * 100\<rfloor>" by (simp add: le_floor_iff)
  with round_half_even_floor [of "x * 100"] have "100 \<le> round_half_even (x * 100)" by linarith
  then have "(100::real) \<le> of_int (round_half_even (x * 100))" by linarith
  then show ?thesis by (simp add: round2_def)
qed

lemma month_range: "1 \<le> month t \<and> month t \<le> 12"
proof -
  define n1 where "n1 = (ordinal t - 1) mod 146097"
  define n100 where "n100 = n1 div 36524"
  define n2 where "n2 = n1 mod 36524"
  define n4 where "n4 = n2 div 1461"
  define n3 where "n3 = n2 mod 1461"
  define ny where "ny = n3 div 365"
  define n where "n = n3 mod 365"
  define leap where "leap \<longleftrightarrow> ny = 3 \<and> (n4 \<noteq> 24 \<or> n100 = 3)"
  define m where "m = (n + 50) div 32"
  define pre where "pre = days_before_month ! nat m + (if m > 2 \<and> leap then 1 else 0)"
  have eq: "month t = (if ny = 4 \<or> n100 = 4 then 12 else if pre > n then m - 1 else m)"
    unfolding month_def Let_def pre_def m_def leap_def n_def ny_def n3_def n4_def n2_def
      n100_def n1_def by (rule refl)
  have n: "0 \<le> n" "n < 365" by (simp_all add: n_def)
  have m: "1 \<le> m" "m \<le> 12" using n by (simp_all add: m_def)
  have "\<not> pre > n" if "m = 1"
    using that n by (simp add: pre_def days_before_month_def)
  then have "1 \<le> (if pre > n then m - 1 else m)" using m by (cases "m = 1") auto
  moreover have "(if pre > n then m - 1 else m) \<le> 12" using m by auto
  ultimately show ?thesis unfolding eq by (cases "ny = 4 \<or> n100 = 4") simp_all
qed

lemma season_range: "0 \<le> (month t - 1) div 3 \<and> (month t - 1) div 3 \<le> 3"
  using month_range [of t] by presburger

lemma weekday_range: "0 \<le> weekday t \<and> weekday t \<le> 6"
  by (simp add: weekday_def)

lemma datetime_add_hour: "datetime_add s d = Inr ts \<Longrightarrow> hour ts = hour s"
  by (auto simp: datetime_add_def split: if_splits)

lemma day_loop_range:
  assumes c: "rng_contract r" and bp: "10 \<le> bp" and h: "0 \<le> hour s" "hour s < 24"
    and "day_loop r pid bp s ds g = Inr (recs, k)"
  shows "\<forall>x \<in> set recs. sample_in_range x"
  using assms(5)
proof (induction ds arbitrary: g recs k)
  case Nil
  then show ?case by simp
next
  case (Cons d ds)
  obtain dm g1 where a: "randint r 50 500 g = (dm, g1)" by (cases "randint r 50 500 g")
  obtain u1 g2 where b: "uniform r (17 / 20) (23 / 20) g1 = (u1, g2)"
    by (cases "uniform r (17 / 20) (23 / 20) g1")
  obtain u2 g3 where e: "uniform r (9 / 10) (11 / 10) g2 = (u2, g3)"
    by (cases "uniform r (9 / 10) (11 / 10) g2")
  have "(50::int) < 500" by simp
  with c have "50 \<le> fst (randint r 50 500 g) \<and> fst (randint r 50 500 g) < 500"
    unfolding rng_contract_def by blast
  with a have dm: "50 \<le> dm" "dm < 500" by simp_all
  have "(17 / 20 :: real) < 23 / 20" by simp
  with c have "17 / 20 \<le> fst (uniform r (17 / 20) (23 / 20) g1)"
    unfolding rng_contract_def by blast
  with b have u1: "17 / 20 \<le> u1" by simp
  have "(9 / 10 :: real) < 11 / 10" by simp
  with c have "9 / 10 \<le> fst (uniform r (9 / 10) (11 / 10) g2)"
    unfolding rng_contract_def by blast
  with e have u2: "9 / 10 \<le> u2" by simp
  from Cons.prems obtain td ts rest where
    ts: "datetime_add s td = Inr ts" and
    rest: "day_loop r pid bp s ds g3 = Inr (rest, k)" and
    recs: "recs = \<lparr>product_id = product_label pid, timestamp = ts,
                           base_price = round2 bp, current_price = round2 (bp * u2),
                           demand = dm, competition_price = round2 (bp * u1),
                           time_of_day = hour ts, day_of_week = weekday ts,
                           season = (month ts - 1) div 3\<rparr> # rest"
    by (auto simp: a b e split: sum.splits)
  have "10 * (17 / 20) \<le> bp * u1" using bp u1 by (intro mult_mono) simp_all
  then have "1 \<le> bp * u1" by simp
  moreover have "10 * (9 / 10) \<le> bp * u2" using bp u2 by (intro mult_mono) simp_all
  then have "1 \<le> bp * u2" by simp
  moreover have "1 \<le> bp" using bp by simp
  ultimately have p: "0 < round2 (bp * u1)" "0 < round2 (bp * u2)" "0 < round2 bp"
    by (simp_all add: round2_positive)
  have "hour ts = hour s" using ts by (rule datetime_add_hour)
  with h have ht: "0 \<le> hour ts" "hour ts \<le> 23" by simp_all
  have "sample_in_range \<lparr>product_id = product_label pid, timestamp = ts,
                           base_price = round2 bp, current_price = round2 (bp * u2),
                           demand = dm, competition_price = round2 (bp * u1),
                           time_of_day = hour ts, day_of_week = weekday ts,
                           season = (month ts - 1) div 3\<rparr>"
    using p dm ht season_range [of ts] weekday_range [of ts]
    by (simp add: sample_in_range_def)
  with Cons.IH [OF rest] recs show ?case by simp
qed

lemma product_loop_range:
  assumes c: "rng_contract r" and h: "0 \<le> hour s" "hour s < 24"
    and "product_loop r s days pids g = Inr (recs, k)"
  shows "\<forall>x \<in> set recs. sample_in_range x"
  using assms(4)
proof (induction pids arbitrary: g recs k)
  case Nil
  then show ?case by simp
next
  case (Cons p ps)
  obtain bp g1 where a: "uniform r 10 200 g = (bp, g1)" by (cases "uniform r 10 200 g")
  have "(10::real) < 200" by simp
  with c have "10 \<le> fst (uniform r 10 200 g)"
    unfolding rng_contract_def by blast
  with a have bp: "10 \<le> bp" by simp
  from Cons.prems obtain rows1 k1 rest1 where
    d1: "day_loop r p bp s (map int [0..<nat days]) g1 = Inr (rows1, k1)" and
    p1: "product_loop r s days ps k1 = Inr (rest1, k)" and
    e1: "recs = rows1 @ rest1"
    by (auto simp: a split: sum.splits)
  from day_loop_range [OF c bp h d1] Cons.IH [OF p1] e1 show ?case by auto
qed

lemma day_loop_total:
  assumes "\<forall>day \<in> set ds. - 999999999 \<le> day \<and> day \<le> 999999999
             \<and> 1 \<le> ordinal s + day \<and> ordinal s + day \<le> 3652059"
  shows "\<exists>recs k. day_loop r pid bp s ds g = Inr (recs, k)"
  using assms
proof (induction ds arbitrary: g)
  case Nil
  then show ?case by simp
next
  case (Cons d ds)
  obtain dm g1 where a: "randint r 50 500 g = (dm, g1)" by (cases "randint r 50 500 g")
  obtain u1 g2 where b: "uniform r (17 / 20) (23 / 20) g1 = (u1, g2)"
    by (cases "uniform r (17 / 20) (23 / 20) g1")
  obtain u2 g3 where e: "uniform r (9 / 10) (11 / 10) g2 = (u2, g3)"
    by (cases "uniform r (9 / 10) (11 / 10) g2")
  from Cons.prems have td: "timedelta_days d = Inr d"
    by (simp add: timedelta_days_def)
  from Cons.prems have ad: "datetime_add s d = Inr (s\<lparr>ordinal := ordinal s + d\<rparr>)"
    by (simp add: datetime_add_def)
  from Cons.prems have "\<forall>day \<in> set ds. - 999999999 \<le> day \<and> day \<le> 999999999
             \<and> 1 \<le> ordinal s + day \<and> ordinal s + day \<le> 3652059" by simp
  from Cons.IH [OF this] obtain rest k where "day_loop r pid bp s ds g3 = Inr (rest, k)"
    by blast
  then show ?case by (simp add: td ad a b e)
qed

lemma product_loop_total:
  assumes "\<forall>day \<in> set (map int [0..<nat days]). - 999999999 \<le> day \<and> day \<le> 999999999
             \<and> 1 \<le> ordinal s + day \<and> ordinal s + day \<le> 3652059"
  shows "\<exists>recs k. product_loop r s days pids g = Inr (recs, k)"
proof (induction pids arbitrary: g)
  case Nil
  then show ?case by simp
next
  case (Cons p ps)
  obtain bp g1 where a: "uniform r 10 200 g = (bp, g1)" by (cases "uniform r 10 200 g")
  from day_loop_total [OF assms, where r = r and pid = p and bp = bp and g = g1]
  obtain rows1 k1 where
    d: "day_loop r p bp s (map int [0..<nat days]) g1 = Inr (rows1, k1)" by blast
  from Cons.IH obtain rest k where "product_loop r s days ps k1 = Inr (rest, k)" by blast
  with d show ?case by (simp add: a)
qed

lemma sample_records_total:
  assumes "1 \<le> ordinal now - d" and "ordinal now \<le> 3652059" and "0 \<le> d"
  shows "\<exists>recs k. sample_records r now g n d = Inr (recs, k)"
proof -
  have td: "timedelta_days d = Inr d"
    using assms by (simp add: timedelta_days_def)
  have sub: "datetime_sub now d = Inr (now\<lparr>ordinal := ordinal now - d\<rparr>)"
    using assms by (simp add: datetime_sub_def datetime_add_def)
  have "\<forall>day \<in> set (map int [0..<nat d]). - 999999999 \<le> day \<and> day \<le> 999999999
             \<and> 1 \<le> ordinal (now\<lparr>ordinal := ordinal now - d\<rparr>) + day
             \<and> ordinal (now\<lparr>ordinal := ordinal now - d\<rparr>) + day \<le> 3652059"
    using assms by auto
  from product_loop_total [OF this]
  show ?thesis by (simp add: sample_records_def td sub)
qed

lemma sample_records_range:
  assumes c: "rng_contract r" and v: "valid_datetime now"
    and s: "sample_records r now g n d = Inr (recs, k)"
  shows "\<forall>x \<in> set recs. sample_in_range x"
proof -
  from s obtain start where
    st: "datetime_sub now d = Inr start" and
    pl: "product_loop r start d [1..<nat (n + 1)] (rng_seed r 42) = Inr (recs, k)"
    by (rule sample_records_start)
  from st have "hour start = hour now"
    unfolding datetime_sub_def by (rule datetime_add_hour)
  with v have h: "0 \<le> hour start" "hour start < 24"
    by (simp_all add: valid_datetime_def)
  from product_loop_range [OF c h pl] show ?thesis .
qed

lemma sample_records_length:
  assumes "sample_records r now g n d = Inr (recs, k)"
  shows "length recs = nat n * nat d"
proof -
  from assms obtain start where
    "product_loop r start d [1..<nat (n + 1)] (rng_seed r 42) = Inr (recs, k)"
    by (rule sample_records_start)
  from product_loop_length [OF this] have "length recs = (nat (n + 1) - 1) * nat d" by simp
  moreover have "nat (n + 1) - 1 = nat n" by (cases "0 \<le> n") simp_all
  ultimately show ?thesis by simp
qed

lemma sequence_err_Inr: "sequence_err (map Inr xs) = Inr xs"
  by (induction xs) auto

lemma count_true_all_false: "count_true (map (\<lambda>x. False) xs) = 0"
  by (simp add: count_true_def)

lemma generated_frame_negative_prices:
  assumes "recs \<noteq> []" and "\<forall>x \<in> set recs. 0 < current_price x"
  shows "negative_price_count (DataFrame recs) = Inr (Some 0)"
proof -
  have col: "column 3 (DataFrame recs) = map (\<lambda>x. Num (Fin (current_price x))) recs"
    using assms(1) by (simp add: DataFrame_def column_def sample_row_def numeral_3_eq_3)
  have "map (cell_cmp0 lt0) (map (\<lambda>x. Num (Fin (current_price x))) recs)
          = map Inr (map (\<lambda>x. False) recs)"
    using assms(2) by (auto simp: lt0_def dest: order_less_asym)
  then have "series_cmp0 lt0 Float64 (column 3 (DataFrame recs)) = Inr (map (\<lambda>x. False) recs)"
    unfolding col series_cmp0_def by (simp only: sequence_err_Inr) simp
  moreover have "col_index ''current_price'' (columns (DataFrame recs)) = Some 3"
    using assms(1) by (simp add: DataFrame_def numeral_3_eq_3)
  moreover have "snd (columns (DataFrame recs) ! 3) = Float64"
    using assms(1) by (simp add: DataFrame_def numeral_3_eq_3)
  ultimately show ?thesis
    by (simp add: negative_price_count_def count_true_all_false)
qed

lemma generated_frame_outliers:
  assumes "recs \<noteq> []"
  shows "\<exists>v. demand_outlier_count (DataFrame recs) = Inr v"
proof -
  have "col_index ''demand'' (columns (DataFrame recs)) = Some 4"
    using assms by (simp add: DataFrame_def eval_nat_numeral)
  moreover have "snd (columns (DataFrame recs) ! 4) = Int64"
    using assms by (simp add: DataFrame_def eval_nat_numeral)
  ultimately show ?thesis
    by (simp add: demand_outlier_count_def series_values_def)
qed

lemma generated_frame_validates:
  assumes "recs \<noteq> []" and "\<forall>x \<in> set recs. 0 < current_price x"
  shows "\<exists>rep. validate_data t (DataFrame recs) = Inr rep \<and> negative_prices rep = Some 0"
proof -
  from generated_frame_outliers [OF assms(1)] obtain v where
    "demand_outlier_count (DataFrame recs) = Inr v" by blast
  with generated_frame_negative_prices [OF assms] show ?thesis
    by (simp add: validate_data_def)
qed

lemma demo_rng_contract: "rng_contract demo_rng"
proof -
  have u: "lo \<le> lo + (hi - lo) * (real (g mod 10) / 10)
         \<and> lo + (hi - lo) * (real (g mod 10) / 10) < hi" if "lo < hi" for lo hi :: real and g :: nat
  proof -
    have a: "0 \<le> real (g mod 10) / 10" by simp
    have "g mod 10 < 10" by simp
    then have "real (g mod 10) < 10" by linarith
    then have b: "real (g mod 10) / 10 < 1" by simp
    have "0 \<le> (hi - lo) * (real (g mod 10) / 10)" using that a by simp
    moreover have "(hi - lo) * (real (g mod 10) / 10) < (hi - lo) * 1"
      using that b by (intro mult_strict_left_mono) simp_all
    ultimately show ?thesis by simp
  qed
  have i: "lo \<le> lo + int g mod (hi - lo) \<and> lo + int g mod (hi - lo) < hi" if "lo < hi" for lo hi :: int and g :: nat
    using that pos_mod_bound [of "hi - lo" "int g"] pos_mod_sign [of "hi - lo" "int g"]
    by linarith
  show ?thesis
    unfolding rng_contract_def demo_rng_def using u i by simp
qed

text \<open>
  C2 (counterexample). Two calls with the same arguments and the same random stream, one
  second apart on the clock, return different frames: the timestamps differ.
\<close>

theorem generator_depends_on_clock:
  "generate_sample_data demo_rng demo_now 0 1 1
     \<noteq> generate_sample_data demo_rng (demo_now\<lparr>second := 6\<rparr>) 0 1 1"
  by code_simp

text \<open>
  C2 (amended). At one clock reading the returned frame does not depend on the state
  the global random stream was in before the call. Across clock readings, two calls
  with the same arguments that both return agree on \<open>product_id\<close>, \<open>base_price\<close>,
  \<open>current_price\<close>, \<open>demand\<close> and \<open>competition_price\<close> of every record. A returned frame
  has \<open>n_products * days\<close> rows (none if either argument is negative).
\<close>

theorem generator_seed_determinism:
  "generate_sample_data r now g1 n d = generate_sample_data r now g2 n d
   \<and> (\<forall>recs1 h1 recs2 h2.
         sample_records r now1 g1 n d = Inr (recs1, h1)
       \<and> sample_records r now2 g2 n d = Inr (recs2, h2)
       \<longrightarrow> map seeded_fields recs1 = map seeded_fields recs2)
   \<and> (\<forall>f h. generate_sample_data r now g1 n d = Inr (f, h)
         \<longrightarrow> length (rows f) = nat n * nat d)"
proof (intro conjI allI impI)
  show "generate_sample_data r now g1 n d = generate_sample_data r now g2 n d"
    by (simp add: generate_sample_data_def sample_records_def)
next
  fix recs1 h1 recs2 h2
  assume a: "sample_records r now1 g1 n d = Inr (recs1, h1)
       \<and> sample_records r now2 g2 n d = Inr (recs2, h2)"
  from a obtain s1 where
    p1: "product_loop r s1 d [1..<nat (n + 1)] (rng_seed r 42) = Inr (recs1, h1)"
    by (blast elim: sample_records_start)
  from a obtain s2 where
    p2: "product_loop r s2 d [1..<nat (n + 1)] (rng_seed r 42) = Inr (recs2, h2)"
    by (blast elim: sample_records_start)
  from product_loop_seeded [OF p1 p2]
  show "map seeded_fields recs1 = map seeded_fields recs2" by simp
next
  fix f h
  assume "generate_sample_data r now g1 n d = Inr (f, h)"
  then obtain recs where s: "sample_records r now g1 n d = Inr (recs, h)"
    and f: "f = DataFrame recs"
    by (auto simp: generate_sample_data_def split: sum.splits)
  from f have "length (rows f) = length recs" by (simp add: DataFrame_def)
  with sample_records_length [OF s] show "length (rows f) = nat n * nat d" by simp
qed

theorem generator_seed_determinism_witness:
  "(\<exists>recs1 h1 recs2 h2.
       sample_records demo_rng demo_now 0 2 2 = Inr (recs1, h1)
     \<and> sample_records demo_rng (demo_now\<lparr>second := 6\<rparr>) 7 2 2 = Inr (recs2, h2)
     \<and> map seeded_fields recs1 = map seeded_fields recs2)
   \<and> (\<exists>f h. generate_sample_data demo_rng demo_now 0 2 2 = Inr (f, h) \<and> length (rows f) = 4)"
proof -
  have v1: "1 \<le> ordinal demo_now - 2" "ordinal demo_now \<le> 3652059"
    by (simp_all add: demo_now_def)
  have v2: "1 \<le> ordinal (demo_now\<lparr>second := 6\<rparr>) - 2"
    "ordinal (demo_now\<lparr>second := 6\<rparr>) \<le> 3652059"
    by (simp_all add: demo_now_def)
  from sample_records_total [OF v1, where r = demo_rng and g = 0 and n = 2] obtain recs1 h1 where
    s1: "sample_records demo_rng demo_now 0 2 2 = Inr (recs1, h1)" by auto
  from sample_records_total [OF v2, where r = demo_rng and g = 7 and n = 2] obtain recs2 h2 where
    s2: "sample_records demo_rng (demo_now\<lparr>second := 6\<rparr>) 7 2 2 = Inr (recs2, h2)" by auto
  have g: "generate_sample_data demo_rng demo_now 0 2 2 = Inr (DataFrame recs1, h1)"
    by (simp add: generate_sample_data_def s1)
  note t = generator_seed_determinism [of demo_rng demo_now 0 2 2 7 demo_now "demo_now\<lparr>second := 6\<rparr>"]
  from t s1 s2 have "map seeded_fields recs1 = map seeded_fields recs2" by blast
  moreover from t g have "length (rows (DataFrame recs1)) = 4" by simp
  ultimately show ?thesis using s1 s2 g by blast
qed

text \<open>
  C10. With draws that stay in their intervals and a valid clock reading, for
  \<open>n_products \<ge> 1\<close> and \<open>days \<ge> 1\<close>: the generator returns whenever \<open>days\<close> does not
  reach back before year 1, every record it returns has positive prices, demand from 50
  up to but excluding 500, \<open>time_of_day\<close> in 0..23, \<open>day_of_week\<close> in 0..6 and \<open>season\<close>
  in 0..3, and validating the generated frame reports zero negative prices.
\<close>

theorem generated_records_in_range:
  assumes "rng_contract r" and "valid_datetime now" and "1 \<le> n" and "1 \<le> d"
  shows "(d < ordinal now \<longrightarrow> (\<exists>recs h. sample_records r now g n d = Inr (recs, h)))
       \<and> (\<forall>recs h. sample_records r now g n d = Inr (recs, h) \<longrightarrow>
             (\<forall>x \<in> set recs. sample_in_range x)
           \<and> (\<exists>rep. validate_data t (DataFrame recs) = Inr rep \<and> negative_prices rep = Some 0))"
proof (intro conjI allI impI)
  assume "d < ordinal now"
  with assms(2,4) show "\<exists>recs h. sample_records r now g n d = Inr (recs, h)"
    by (intro sample_records_total) (simp_all add: valid_datetime_def)
next
  fix recs h assume s: "sample_records r now g n d = Inr (recs, h)"
  show "\<forall>x \<in> set recs. sample_in_range x"
    by (rule sample_records_range [OF assms(1,2) s])
next
  fix recs h assume s: "sample_records r now g n d = Inr (recs, h)"
  have r: "\<forall>x \<in> set recs. sample_in_range x"
    by (rule sample_records_range [OF assms(1,2) s])
  have "length recs = nat n * nat d" by (rule sample_records_length [OF s])
  moreover have "0 < nat n * nat d" using assms(3,4) by simp
  ultimately have ne: "recs \<noteq> []" by auto
  from r have "\<forall>x \<in> set recs. 0 < current_price x" by (simp add: sample_in_range_def)
  from generated_frame_validates [OF ne this]
  show "\<exists>rep. validate_data t (DataFrame recs) = Inr rep \<and> negative_prices rep = Some 0" .
qed

theorem generated_records_in_range_witness:
  "rng_contract demo_rng \<and> valid_datetime demo_now
   \<and> (\<exists>recs h. sample_records demo_rng demo_now 0 2 2 = Inr (recs, h)
         \<and> list_all sample_in_range recs
         \<and> (\<exists>rep. validate_data ''t'' (DataFrame recs) = Inr rep \<and> negative_prices rep = Some 0))"
proof -
  have v: "valid_datetime demo_now" by (simp add: valid_datetime_def demo_now_def)
  have o: "2 < ordinal demo_now" by (simp add: demo_now_def)
  note t = generated_records_in_range [OF demo_rng_contract v, of 2 2 0 "''t''"]
  from t o obtain recs h where s: "sample_records demo_rng demo_now 0 2 2 = Inr (recs, h)"
    by auto
  with t have "\<forall>x \<in> set recs. sample_in_range x"
    "\<exists>rep. validate_data ''t'' (DataFrame recs) = Inr rep \<and> negative_prices rep = Some 0"
    by auto
  with s v demo_rng_contract show ?thesis by (auto simp: list_all_iff)
qed

section \<open>The transformation applied twice\<close>

lemma col_index_Some:
  "col_index name cs = Some i \<Longrightarrow> i < length cs \<and> fst (cs ! i) = name"
proof (induction cs arbitrary: i)
  case Nil
  then show ?case by simp
next
  case (Cons c cs)
  then show ?case by (cases "fst c = name") auto
qed

lemma col_index_None: "col_index name cs = None \<longleftrightarrow> name \<notin> fst ` set cs"
  by (induction cs) auto

lemma col_index_append_Some:
  "col_index name cs = Some i \<Longrightarrow> col_index name (cs @ ds) = Some i"
  by (induction cs arbitrary: i) auto

lemma col_index_append_None:
  "col_index name cs = None \<Longrightarrow>
     col_index name (cs @ ds) = map_option (\<lambda>k. length cs + k) (col_index name ds)"
proof (induction cs)
  case Nil
  then show ?case by (simp add: option.map_ident)
next
  case (Cons c cs)
  then show ?case by (cases "fst c = name") (auto simp: option.map_comp comp_def)
qed

lemma select_rows_map: "select_rows (map P rs) rs = filter P rs"
proof -
  have "filter snd (zip rs (map P rs)) = zip (filter P rs) (map P (filter P rs))"
    by (induction rs) auto
  then show ?thesis by (simp add: select_rows_def)
qed

lemma select_rows_Cons:
  "select_rows (b # bs) (r # rs) = (if b then r # select_rows bs rs else select_rows bs rs)"
  by (simp add: select_rows_def)

lemma dedup_from_set:
  "set (select_rows (map Not (duplicated_from seen rs)) rs) = set rs - set seen"
  by (induction rs arbitrary: seen) (auto simp: select_rows_Cons select_rows_def)

lemma dedup_from_distinct:
  "distinct (select_rows (map Not (duplicated_from seen rs)) rs)"
proof (induction rs arbitrary: seen)
  case Nil
  then show ?case by (simp add: select_rows_def)
next
  case (Cons r rs)
  then show ?case by (simp add: select_rows_Cons dedup_from_set)
qed

lemma dedup_from_id:
  "distinct rs \<Longrightarrow> set rs \<inter> set seen = {} \<Longrightarrow>
     select_rows (map Not (duplicated_from seen rs)) rs = rs"
proof (induction rs arbitrary: seen)
  case Nil
  then show ?case by (simp add: select_rows_def)
next
  case (Cons r rs)
  from Cons.prems have "distinct rs" "set rs \<inter> set (r # seen) = {}" "r \<notin> set seen"
    by auto
  with Cons.IH [of "r # seen"] show ?case by (simp add: select_rows_Cons)
qed

lemma drop_duplicates_rows:
  "distinct (rows (drop_duplicates f))" "set (rows (drop_duplicates f)) = set (rows f)"
  "columns (drop_duplicates f) = columns f"
  by (simp_all add: drop_duplicates_def duplicated_def dedup_from_distinct dedup_from_set)

lemma drop_duplicates_id: "distinct (rows f) \<Longrightarrow> drop_duplicates f = f"
  by (simp add: drop_duplicates_def duplicated_def dedup_from_id)

lemma fill_values_length: "length (fill_values f) = length (columns f)"
  by (simp add: fill_values_def)

lemma fill_row_id:
  assumes "length r = length (columns f)"
    and "\<forall>i < length (columns f). is_number (snd (columns f ! i)) \<longrightarrow> r ! i \<noteq> NA"
  shows "map2 fill_cell (fill_values f) r = r"
proof (rule nth_equalityI)
  show "length (map2 fill_cell (fill_values f) r) = length r"
    using assms(1) by (simp add: fill_values_length)
next
  fix i assume "i < length (map2 fill_cell (fill_values f) r)"
  then have i: "i < length (columns f)" "i < length r"
    using assms(1) by (simp_all add: fill_values_length)
  have "fill_cell (fill_values f ! i) (r ! i) = r ! i"
  proof (cases "is_number (snd (columns f ! i))")
    case True
    with assms(2) i have "r ! i \<noteq> NA" by blast
    then show ?thesis by (simp add: fill_cell_def split: option.splits)
  next
    case False
    with i have "fill_values f ! i = None" by (simp add: fill_values_def)
    then show ?thesis by (simp add: fill_cell_def)
  qed
  with i show "map2 fill_cell (fill_values f) r ! i = r ! i"
    by (simp add: fill_values_length)
qed

lemma fillna_median_id:
  assumes "wf_frame f" and "no_missing f"
  shows "fillna_median f = f"
proof -
  have "map (\<lambda>r. map2 fill_cell (fill_values f) r) (rows f) = rows f"
  proof (rule map_idI)
    fix r assume r: "r \<in> set (rows f)"
    with assms(1) have "length r = length (columns f)" by (simp add: wf_frame_def)
    moreover from assms(2) r have
      "\<forall>i < length (columns f). is_number (snd (columns f ! i)) \<longrightarrow> r ! i \<noteq> NA"
      by (simp add: no_missing_def)
    ultimately show "map2 fill_cell (fill_values f) r = r" by (rule fill_row_id)
  qed
  then show ?thesis by (simp add: fillna_median_def)
qed

lemma sequence_err_map:
  "(\<forall>x \<in> set xs. h x = Inr (g x)) \<Longrightarrow> sequence_err (map h xs) = Inr (map g xs)"
  by (induction xs) auto

lemma cell_cmp0_numeric: "numeric_cell c \<Longrightarrow> cell_cmp0 gt0 c = Inr (positive_cell c)"
  by (cases c) (simp_all add: numeric_cell_def positive_cell_def)

lemma cell_div_numeric:
  "numeric_cell a \<Longrightarrow> numeric_cell b \<Longrightarrow> cell_div a b = Inr (div_cell a b)"
  by (cases a; cases b) (simp_all add: numeric_cell_def div_cell_def)

lemma cut_cell_numeric: "numeric_cell c \<Longrightarrow> cut_cell c = Inr (level_cell c)"
  by (cases c) (simp_all add: numeric_cell_def level_cell_def)

lemma frame_rows_id: "f\<lparr>rows := rows f\<rparr> = f"
  by simp

lemma keep_positive_absent:
  "col_index ''current_price'' (columns f) = None \<Longrightarrow> keep_positive f = Inr f"
  by (simp add: keep_positive_def)

lemma keep_positive_numeric:
  assumes "col_index ''current_price'' (columns f) = Some i"
    and "is_number (snd (columns f ! i))"
    and "\<forall>r \<in> set (rows f). numeric_cell (r ! i)"
  shows "keep_positive f = Inr (f\<lparr>rows := filter (\<lambda>r. positive_cell (r ! i)) (rows f)\<rparr>)"
proof -
  have "sequence_err (map (cell_cmp0 gt0) (column i f))
          = Inr (map positive_cell (column i f))"
    using assms(3) by (intro sequence_err_map) (simp add: column_def cell_cmp0_numeric)
  then have "series_cmp0 gt0 (snd (columns f ! i)) (column i f)
          = Inr (map (\<lambda>r. positive_cell (r ! i)) (rows f))"
    using assms(2) by (auto simp: series_cmp0_def is_number_def column_def comp_def)
  then show ?thesis
    using assms(1) by (simp add: keep_positive_def select_rows_map)
qed

lemma zip_map_same: "map2 h rs (map g rs) = map (\<lambda>r. h r (g r)) rs"
  by (induction rs) auto

lemma assign_new:
  assumes "col_index name (columns f) = None"
  shows "assign name d (map g (rows f)) f = append_column name d g f"
proof -
  have "map2 (\<lambda>r v. r @ [v]) (rows f) (map g (rows f)) = map (\<lambda>r. r @ [g r]) (rows f)"
    by (rule zip_map_same)
  then show ?thesis using assms by (simp add: assign_def append_column_def)
qed

lemma assign_same:
  assumes "col_index name (columns f) = Some n"
    and "columns f ! n = (name, d)"
    and "\<forall>r \<in> set (rows f). g r = r ! n"
  shows "assign name d (map g (rows f)) f = f"
proof -
  have "map2 (\<lambda>r v. r[n := v]) (rows f) (map g (rows f)) = map (\<lambda>r. r[n := g r]) (rows f)"
    by (rule zip_map_same)
  also have "\<dots> = rows f"
    using assms(3) by (intro map_idI) simp
  finally have r: "map2 (\<lambda>r v. r[n := v]) (rows f) (map g (rows f)) = rows f" .
  have c: "(columns f)[n := (name, d)] = columns f"
    using assms(2) by (metis list_update_id)
  show ?thesis using assms(1) by (simp add: assign_def r c)
qed

lemma map2_map_map: "map2 h (map a rs) (map b rs) = map (\<lambda>r. h (a r) (b r)) rs"
  by (induction rs) auto

lemma add_price_ratio_absent:
  "col_index ''current_price'' (columns f) = None \<or> col_index ''base_price'' (columns f) = None
     \<Longrightarrow> add_price_ratio f = Inr f"
  by (auto simp: add_price_ratio_def split: option.splits)

lemma add_price_ratio_numeric:
  assumes "col_index ''current_price'' (columns f) = Some i"
    and "col_index ''base_price'' (columns f) = Some j"
    and "is_number (snd (columns f ! i))" and "is_number (snd (columns f ! j))"
    and "\<forall>r \<in> set (rows f). numeric_cell (r ! i) \<and> numeric_cell (r ! j)"
  shows "add_price_ratio f
           = Inr (assign ''price_ratio'' Float64 (map (\<lambda>r. div_cell (r ! i) (r ! j)) (rows f)) f)"
proof -
  have "map2 cell_div (column i f) (column j f) = map (\<lambda>r. cell_div (r ! i) (r ! j)) (rows f)"
    unfolding column_def by (rule map2_map_map)
  moreover have "sequence_err (map (\<lambda>r. cell_div (r ! i) (r ! j)) (rows f))
          = Inr (map (\<lambda>r. div_cell (r ! i) (r ! j)) (rows f))"
    using assms(5) by (intro sequence_err_map) (simp add: cell_div_numeric)
  ultimately have "series_div (snd (columns f ! i)) (column i f) (snd (columns f ! j)) (column j f)
          = Inr (map (\<lambda>r. div_cell (r ! i) (r ! j)) (rows f))"
    using assms(3,4) by (auto simp: series_div_def is_number_def)
  then show ?thesis
    using assms(1-4) by (simp add: add_price_ratio_def)
qed

lemma add_demand_level_absent:
  "col_index ''demand'' (columns f) = None \<Longrightarrow> add_demand_level f = Inr f"
  by (simp add: add_demand_level_def)

lemma add_demand_level_numeric:
  assumes "col_index ''demand'' (columns f) = Some k"
    and "is_number (snd (columns f ! k))"
    and "\<forall>r \<in> set (rows f). numeric_cell (r ! k)"
  shows "add_demand_level f
           = Inr (assign ''demand_level'' Category (map (\<lambda>r. level_cell (r ! k)) (rows f)) f)"
proof -
  have "sequence_err (map cut_cell (column k f)) = Inr (map level_cell (column k f))"
    using assms(3) by (intro sequence_err_map) (simp add: column_def cut_cell_numeric)
  then have "series_cut (snd (columns f ! k)) (column k f)
          = Inr (map (\<lambda>r. level_cell (r ! k)) (rows f))"
    using assms(2) by (auto simp: series_cut_def is_number_def column_def comp_def)
  then show ?thesis
    using assms(1) by (simp add: add_demand_level_def)
qed

lemma positive_numeric: "positive_cell c \<Longrightarrow> numeric_cell c"
  by (cases c) (simp_all add: positive_cell_def numeric_cell_def)

lemma settled_keep_positive:
  assumes "positive_prices f"
  shows "keep_positive f = Inr f"
proof (cases "col_index ''current_price'' (columns f)")
  case None
  then show ?thesis by (rule keep_positive_absent)
next
  case (Some i)
  with assms have n: "is_number (snd (columns f ! i))"
    and p: "\<forall>r \<in> set (rows f). positive_cell (r ! i)"
    by (simp_all add: positive_prices_def)
  from p have "\<forall>r \<in> set (rows f). numeric_cell (r ! i)" by (simp add: positive_numeric)
  from keep_positive_numeric [OF Some n this]
  have "keep_positive f = Inr (f\<lparr>rows := filter (\<lambda>r. positive_cell (r ! i)) (rows f)\<rparr>)" .
  moreover have "filter (\<lambda>r. positive_cell (r ! i)) (rows f) = rows f"
    using p by (simp add: filter_id_conv)
  ultimately show ?thesis by simp
qed

lemma settled_add_price_ratio:
  assumes "ratio_settled f"
  shows "add_price_ratio f = Inr f"
proof (cases "col_index ''current_price'' (columns f) = None
              \<or> col_index ''base_price'' (columns f) = None")
  case True
  then show ?thesis by (rule add_price_ratio_absent)
next
  case False
  then obtain i j where ij: "col_index ''current_price'' (columns f) = Some i"
    "col_index ''base_price'' (columns f) = Some j" by auto
  with assms obtain n where
    t: "is_number (snd (columns f ! i))" "is_number (snd (columns f ! j))"
    "\<forall>r \<in> set (rows f). numeric_cell (r ! i) \<and> numeric_cell (r ! j)"
    and n: "col_index ''price_ratio'' (columns f) = Some n"
    "columns f ! n = (''price_ratio'', Float64)"
    "\<forall>r \<in> set (rows f). r ! n = div_cell (r ! i) (r ! j)"
    by (auto simp: ratio_settled_def)
  from n(3) have "\<forall>r \<in> set (rows f). div_cell (r ! i) (r ! j) = r ! n" by simp
  from assign_same [OF n(1,2) this] add_price_ratio_numeric [OF ij t]
  show ?thesis by simp
qed

lemma settled_add_demand_level:
  assumes "level_settled f"
  shows "add_demand_level f = Inr f"
proof (cases "col_index ''demand'' (columns f)")
  case None
  then show ?thesis by (rule add_demand_level_absent)
next
  case (Some k)
  with assms obtain n where
    t: "is_number (snd (columns f ! k))" "\<forall>r \<in> set (rows f). numeric_cell (r ! k)"
    and n: "col_index ''demand_level'' (columns f) = Some n"
    "columns f ! n = (''demand_level'', Category)"
    "\<forall>r \<in> set (rows f). r ! n = level_cell (r ! k)"
    by (auto simp: level_settled_def)
  from n(3) have "\<forall>r \<in> set (rows f). level_cell (r ! k) = r ! n" by simp
  from assign_same [OF n(1,2) this] add_demand_level_numeric [OF Some t]
  show ?thesis by simp
qed

lemma assign_existing:
  assumes "col_index name (columns f) = Some n"
  shows "assign name d (map g (rows f)) f
           = f\<lparr>columns := (columns f)[n := (name, d)],
               rows := map (\<lambda>r. r[n := g r]) (rows f)\<rparr>"
proof -
  have "map2 (\<lambda>r v. r[n := v]) (rows f) (map g (rows f)) = map (\<lambda>r. r[n := g r]) (rows f)"
    by (rule zip_map_same)
  then show ?thesis using assms by (simp add: assign_def)
qed

lemma fill_row_except:
  assumes l: "length r = length (columns f)"
    and m: "\<forall>i < length (columns f).
              is_number (snd (columns f ! i)) \<and> fst (columns f ! i) \<noteq> name \<longrightarrow> r ! i \<noteq> NA"
  shows "length (map2 fill_cell (fill_values f) r) = length r"
    and "k < length r \<Longrightarrow> fst (columns f ! k) \<noteq> name \<Longrightarrow>
           map2 fill_cell (fill_values f) r ! k = r ! k"
proof -
  show "length (map2 fill_cell (fill_values f) r) = length r"
    using l by (simp add: fill_values_length)
next
  assume k: "k < length r" and ne: "fst (columns f ! k) \<noteq> name"
  from k l have kc: "k < length (columns f)" by simp
  have "fill_cell (fill_values f ! k) (r ! k) = r ! k"
  proof (cases "is_number (snd (columns f ! k))")
    case True
    with m kc ne have "r ! k \<noteq> NA" by blast
    then show ?thesis by (simp add: fill_cell_def split: option.splits)
  next
    case False
    with kc have "fill_values f ! k = None" by (simp add: fill_values_def)
    then show ?thesis by (simp add: fill_cell_def)
  qed
  with k kc show "map2 fill_cell (fill_values f) r ! k = r ! k"
    by (simp add: fill_values_length)
qed

lemma no_missing_except_absent:
  assumes "no_missing_except name f" and "col_index name (columns f) = None"
  shows "no_missing f"
proof -
  from assms(2) have "fst (columns f ! i) \<noteq> name" if "i < length (columns f)" for i
    using that by (metis col_index_None image_eqI nth_mem)
  with assms(1) show ?thesis by (simp add: no_missing_def no_missing_except_def)
qed

lemma no_missing_weaken: "no_missing f \<Longrightarrow> no_missing_except name f"
  by (simp add: no_missing_def no_missing_except_def)

lemma settled_fixpoint:
  assumes s: "settled f"
  shows "transform_steps f = Inr f"
proof -
  from s have w: "wf_frame f" and m: "no_missing_except ''price_ratio'' f"
    and p: "positive_prices f" and rs: "ratio_settled f" and ow: "ratio_owned f"
    by (simp_all add: settled_def)
  from s have d: "drop_duplicates f = f"
    by (simp add: settled_def drop_duplicates_id)
  from s have l: "add_demand_level f = Inr f"
    by (simp add: settled_def settled_add_demand_level)
  show ?thesis
  proof (cases "col_index ''price_ratio'' (columns f)")
    case None
    with m have "no_missing f" by (rule no_missing_except_absent)
    with w have n: "fillna_median f = f" by (rule fillna_median_id)
    from p have k: "keep_positive f = Inr f" by (rule settled_keep_positive)
    from rs have r: "add_price_ratio f = Inr f" by (rule settled_add_price_ratio)
    show ?thesis by (simp add: transform_steps_def d n k r l)
  next
    case (Some n)
    with ow obtain i j where ci: "col_index ''current_price'' (columns f) = Some i"
      and cj: "col_index ''base_price'' (columns f) = Some j"
      by (auto simp: ratio_owned_def)
    from rs ci cj Some have
      t: "is_number (snd (columns f ! i))" "is_number (snd (columns f ! j))"
      and c: "\<forall>r \<in> set (rows f). numeric_cell (r ! i) \<and> numeric_cell (r ! j)"
      and dn: "columns f ! n = (''price_ratio'', Float64)"
      and v: "\<forall>r \<in> set (rows f). r ! n = div_cell (r ! i) (r ! j)"
      by (auto simp: ratio_settled_def)
    from ci cj Some have i: "i < length (columns f)" "fst (columns f ! i) = ''current_price''"
      and j: "j < length (columns f)" "fst (columns f ! j) = ''base_price''"
      and n: "n < length (columns f)"
      by (simp_all add: col_index_Some)
    from w have dc: "distinct (map fst (columns f))" by (simp add: wf_frame_def)
    have other: "fst (columns f ! k) \<noteq> ''price_ratio''"
      if "k < length (columns f)" and "k \<noteq> n" for k
    proof
      assume "fst (columns f ! k) = ''price_ratio''"
      with dn have "map fst (columns f) ! k = map fst (columns f) ! n"
        using that(1) n by simp
      with nth_eq_iff_index_eq [OF dc, of k n] that n show False by simp
    qed
    let ?F = "\<lambda>r. map2 fill_cell (fill_values f) r"
    let ?f2 = "f\<lparr>rows := map ?F (rows f)\<rparr>"
    have f2: "fillna_median f = ?f2" by (simp add: fillna_median_def)
    have row: "length (?F r) = length r \<and> ?F r ! i = r ! i \<and> ?F r ! j = r ! j
             \<and> (?F r)[n := div_cell (r ! i) (r ! j)] = r"
      if r: "r \<in> set (rows f)" for r
    proof -
      from w r have lr: "length r = length (columns f)" by (simp add: wf_frame_def)
      from m r have mr: "\<forall>i < length (columns f).
          is_number (snd (columns f ! i)) \<and> fst (columns f ! i) \<noteq> ''price_ratio'' \<longrightarrow> r ! i \<noteq> NA"
        by (simp add: no_missing_except_def)
      note fr = fill_row_except [OF lr mr]
      have li: "?F r ! i = r ! i" using fr(2) [of i] i lr by simp
      have lj: "?F r ! j = r ! j" using fr(2) [of j] j lr by simp
      have "(?F r)[n := div_cell (r ! i) (r ! j)] = r"
      proof (rule nth_equalityI)
        show "length ((?F r)[n := div_cell (r ! i) (r ! j)]) = length r"
          using fr(1) by simp
      next
        fix k assume "k < length ((?F r)[n := div_cell (r ! i) (r ! j)])"
        with fr(1) have k: "k < length r" by simp
        show "(?F r)[n := div_cell (r ! i) (r ! j)] ! k = r ! k"
        proof (cases "k = n")
          case True
          with k fr(1) v r show ?thesis by simp
        next
          case False
          with k lr other have "fst (columns f ! k) \<noteq> ''price_ratio''" by simp
          with fr(2) [OF k] False show ?thesis by simp
        qed
      qed
      with fr(1) li lj show ?thesis by simp
    qed
    have ci2: "col_index ''current_price'' (columns ?f2) = Some i"
      and cj2: "col_index ''base_price'' (columns ?f2) = Some j"
      and cn2: "col_index ''price_ratio'' (columns ?f2) = Some n"
      using ci cj Some by simp_all
    have t2: "is_number (snd (columns ?f2 ! i))" "is_number (snd (columns ?f2 ! j))"
      using t by simp_all
    have c2: "\<forall>r \<in> set (rows ?f2). numeric_cell (r ! i) \<and> numeric_cell (r ! j)"
      using c row by auto
    from p ci have pos: "\<forall>r \<in> set (rows f). positive_cell (r ! i)"
      by (simp add: positive_prices_def)
    then have pos2: "\<forall>r \<in> set (rows ?f2). positive_cell (r ! i)"
      using row by auto
    have "positive_prices ?f2"
      using t pos2 by (simp add: positive_prices_def ci)
    then have k: "keep_positive ?f2 = Inr ?f2" by (rule settled_keep_positive)
    have rr: "map (\<lambda>r. r[n := div_cell (r ! i) (r ! j)]) (rows ?f2) = rows f"
    proof -
      have "map (\<lambda>r. r[n := div_cell (r ! i) (r ! j)]) (rows ?f2)
              = map (\<lambda>r. (?F r)[n := div_cell (?F r ! i) (?F r ! j)]) (rows f)"
        by (simp add: comp_def)
      also have "\<dots> = rows f" by (rule map_idI) (simp add: row)
      finally show ?thesis .
    qed
    have cc: "(columns f)[n := (''price_ratio'', Float64)] = columns f"
      using dn by (metis list_update_id)
    have "add_price_ratio ?f2
            = Inr (assign ''price_ratio'' Float64
                     (map (\<lambda>r. div_cell (r ! i) (r ! j)) (rows ?f2)) ?f2)"
      by (rule add_price_ratio_numeric [OF ci2 cj2 t2 c2])
    also have "assign ''price_ratio'' Float64
                 (map (\<lambda>r. div_cell (r ! i) (r ! j)) (rows ?f2)) ?f2
       = ?f2\<lparr>columns := (columns ?f2)[n := (''price_ratio'', Float64)],
             rows := map (\<lambda>r. r[n := div_cell (r ! i) (r ! j)]) (rows ?f2)\<rparr>"
      by (rule assign_existing [OF cn2])
    also have "\<dots> = f" by (simp only: rr) (simp add: cc)
    finally have r: "add_price_ratio ?f2 = Inr f" .
    show ?thesis by (simp add: transform_steps_def d f2 k r l)
  qed
qed

lemma append_column_columns:
  "columns (append_column name d g f) = columns f @ [(name, d)]"
  "rows (append_column name d g f) = map (\<lambda>r. r @ [g r]) (rows f)"
  by (simp_all add: append_column_def)

lemma append_column_wf:
  assumes "wf_frame f" and "col_index name (columns f) = None"
  shows "wf_frame (append_column name d g f)"
  using assms by (auto simp: wf_frame_def append_column_columns col_index_None)

lemma append_column_distinct:
  assumes "distinct (rows f)"
  shows "distinct (rows (append_column name d g f))"
proof -
  have "inj_on (\<lambda>r. r @ [g r]) (set (rows f))"
    by (rule inj_onI) (metis butlast_snoc)
  with assms show ?thesis by (simp add: append_column_columns distinct_map)
qed

lemma append_column_cell:
  assumes "wf_frame f" and "r \<in> set (rows f)"
  shows "i < length (columns f) \<Longrightarrow> (r @ [g r]) ! i = r ! i"
    and "(r @ [g r]) ! length (columns f) = g r"
proof -
  from assms have l: "length r = length (columns f)" by (simp add: wf_frame_def)
  show "i < length (columns f) \<Longrightarrow> (r @ [g r]) ! i = r ! i" using l by (simp add: nth_append)
  show "(r @ [g r]) ! length (columns f) = g r" using l by (simp add: nth_append)
qed

lemma append_column_index_other:
  assumes "nm \<noteq> name"
  shows "col_index nm (columns (append_column name d g f)) = col_index nm (columns f)"
proof (cases "col_index nm (columns f)")
  case None
  with assms show ?thesis
    by (simp add: append_column_columns col_index_append_None)
next
  case (Some i)
  then show ?thesis by (simp add: append_column_columns col_index_append_Some)
qed

lemma append_column_index_new:
  assumes "col_index name (columns f) = None"
  shows "col_index name (columns (append_column name d g f)) = Some (length (columns f))"
  using assms by (simp add: append_column_columns col_index_append_None)

lemma append_column_dtype:
  "i < length (columns f) \<Longrightarrow> columns (append_column name d g f) ! i = columns f ! i"
  "columns (append_column name d g f) ! length (columns f) = (name, d)"
  by (simp_all add: append_column_columns nth_append)

lemma append_column_no_missing:
  assumes w: "wf_frame f" and m: "no_missing f"
    and n: "is_number d \<longrightarrow> (\<forall>r \<in> set (rows f). g r \<noteq> NA)"
  shows "no_missing (append_column name d g f)"
  unfolding no_missing_def
proof (intro allI impI ballI)
  fix i r'
  assume i: "i < length (columns (append_column name d g f))"
    and num: "is_number (snd (columns (append_column name d g f) ! i))"
    and r': "r' \<in> set (rows (append_column name d g f))"
  from r' obtain r where r: "r \<in> set (rows f)" and e: "r' = r @ [g r]"
    by (auto simp: append_column_columns)
  show "r' ! i \<noteq> NA"
  proof (cases "i < length (columns f)")
    case True
    with num have "is_number (snd (columns f ! i))" by (simp add: append_column_dtype)
    with m True r have "r ! i \<noteq> NA" by (simp add: no_missing_def)
    with append_column_cell(1) [OF w r True] e show ?thesis by simp
  next
    case False
    with i have il: "i = length (columns f)" by (simp add: append_column_columns)
    with num have "is_number d" by (simp add: append_column_dtype)
    with n r have "g r \<noteq> NA" by simp
    with append_column_cell(2) [OF w r] e il show ?thesis by simp
  qed
qed

lemma append_column_positive:
  assumes w: "wf_frame f" and p: "positive_prices f" and ne: "name \<noteq> ''current_price''"
  shows "positive_prices (append_column name d g f)"
proof (cases "col_index ''current_price'' (columns f)")
  case None
  then have "col_index ''current_price'' (columns (append_column name d g f)) = None"
    using ne by (simp add: append_column_index_other)
  then show ?thesis by (simp add: positive_prices_def)
next
  case (Some i)
  then have i: "i < length (columns f)" by (simp add: col_index_Some)
  from Some have c: "col_index ''current_price'' (columns (append_column name d g f)) = Some i"
    using ne by (simp add: append_column_index_other)
  from p Some have t: "is_number (snd (columns f ! i))"
    and q: "\<forall>r \<in> set (rows f). positive_cell (r ! i)"
    by (simp_all add: positive_prices_def)
  have "\<forall>r' \<in> set (rows (append_column name d g f)). positive_cell (r' ! i)"
  proof
    fix r' assume "r' \<in> set (rows (append_column name d g f))"
    then obtain r where r: "r \<in> set (rows f)" and e: "r' = r @ [g r]"
      by (auto simp: append_column_columns)
    from append_column_cell(1) [OF w r i] e q r show "positive_cell (r' ! i)" by simp
  qed
  with t i show ?thesis by (simp add: positive_prices_def c append_column_dtype)
qed

lemma append_ratio_settled:
  assumes w: "wf_frame f" and new: "col_index ''price_ratio'' (columns f) = None"
    and ci: "col_index ''current_price'' (columns f) = Some i"
    and cj: "col_index ''base_price'' (columns f) = Some j"
    and t: "is_number (snd (columns f ! i))" "is_number (snd (columns f ! j))"
    and c: "\<forall>r \<in> set (rows f). numeric_cell (r ! i) \<and> numeric_cell (r ! j)"
  shows "ratio_settled (append_column ''price_ratio'' Float64 (\<lambda>r. div_cell (r ! i) (r ! j)) f)"
proof -
  let ?g = "\<lambda>r. div_cell (r ! i) (r ! j)"
  let ?f' = "append_column ''price_ratio'' Float64 ?g f"
  from ci cj have i: "i < length (columns f)" and j: "j < length (columns f)"
    by (simp_all add: col_index_Some)
  have ci': "col_index ''current_price'' (columns ?f') = Some i"
    using ci by (simp add: append_column_index_other)
  have cj': "col_index ''base_price'' (columns ?f') = Some j"
    using cj by (simp add: append_column_index_other)
  have cn: "col_index ''price_ratio'' (columns ?f') = Some (length (columns f))"
    using new by (rule append_column_index_new)
  have cells: "numeric_cell (r' ! i) \<and> numeric_cell (r' ! j)
             \<and> r' ! length (columns f) = div_cell (r' ! i) (r' ! j)"
    if "r' \<in> set (rows ?f')" for r'
  proof -
    from that obtain r where r: "r \<in> set (rows f)" and e: "r' = r @ [?g r]"
      by (auto simp: append_column_columns)
    from append_column_cell(1) [OF w r i, of ?g] append_column_cell(1) [OF w r j, of ?g]
      append_column_cell(2) [OF w r, of ?g] e c r
    show ?thesis by simp
  qed
  show ?thesis
    unfolding ratio_settled_def
    using cells t i j by (simp add: ci' cj' cn append_column_dtype)
qed

lemma append_column_ratio:
  assumes w: "wf_frame f" and s: "ratio_settled f"
    and ne: "name \<noteq> ''current_price''" "name \<noteq> ''base_price''" "name \<noteq> ''price_ratio''"
  shows "ratio_settled (append_column name d g f)"
proof (cases "col_index ''current_price'' (columns f) = None
              \<or> col_index ''base_price'' (columns f) = None")
  case True
  then have "col_index ''current_price'' (columns (append_column name d g f)) = None
           \<or> col_index ''base_price'' (columns (append_column name d g f)) = None"
    using ne by (simp add: append_column_index_other)
  then show ?thesis by (auto simp: ratio_settled_def split: option.splits)
next
  case False
  then obtain i j where ci: "col_index ''current_price'' (columns f) = Some i"
    and cj: "col_index ''base_price'' (columns f) = Some j" by auto
  with s obtain n where
    t: "is_number (snd (columns f ! i))" "is_number (snd (columns f ! j))"
    and c: "\<forall>r \<in> set (rows f). numeric_cell (r ! i) \<and> numeric_cell (r ! j)"
    and cn: "col_index ''price_ratio'' (columns f) = Some n"
    and dn: "columns f ! n = (''price_ratio'', Float64)"
    and v: "\<forall>r \<in> set (rows f). r ! n = div_cell (r ! i) (r ! j)"
    by (auto simp: ratio_settled_def)
  from ci cj cn have i: "i < length (columns f)" and j: "j < length (columns f)"
    and n: "n < length (columns f)"
    by (simp_all add: col_index_Some)
  let ?f' = "append_column name d g f"
  have ci': "col_index ''current_price'' (columns ?f') = Some i"
    using ci ne by (simp add: append_column_index_other)
  have cj': "col_index ''base_price'' (columns ?f') = Some j"
    using cj ne by (simp add: append_column_index_other)
  have cn': "col_index ''price_ratio'' (columns ?f') = Some n"
    using cn ne by (simp add: append_column_index_other)
  have cells: "numeric_cell (r' ! i) \<and> numeric_cell (r' ! j) \<and> r' ! n = div_cell (r' ! i) (r' ! j)"
    if "r' \<in> set (rows ?f')" for r'
  proof -
    from that obtain r where r: "r \<in> set (rows f)" and e: "r' = r @ [g r]"
      by (auto simp: append_column_columns)
    from append_column_cell(1) [OF w r i, of g] append_column_cell(1) [OF w r j, of g]
      append_column_cell(1) [OF w r n, of g] e c v r
    show ?thesis by simp
  qed
  show ?thesis
    unfolding ratio_settled_def
    using cells t dn i j n by (simp add: ci' cj' cn' append_column_dtype)
qed

lemma append_level_settled:
  assumes w: "wf_frame f" and new: "col_index ''demand_level'' (columns f) = None"
    and ck: "col_index ''demand'' (columns f) = Some k"
    and t: "is_number (snd (columns f ! k))"
    and c: "\<forall>r \<in> set (rows f). numeric_cell (r ! k)"
  shows "level_settled (append_column ''demand_level'' Category (\<lambda>r. level_cell (r ! k)) f)"
proof -
  let ?g = "\<lambda>r. level_cell (r ! k)"
  let ?f' = "append_column ''demand_level'' Category ?g f"
  from ck have k: "k < length (columns f)" by (simp add: col_index_Some)
  have ck': "col_index ''demand'' (columns ?f') = Some k"
    using ck by (simp add: append_column_index_other)
  have cn: "col_index ''demand_level'' (columns ?f') = Some (length (columns f))"
    using new by (rule append_column_index_new)
  have cells: "numeric_cell (r' ! k) \<and> r' ! length (columns f) = level_cell (r' ! k)"
    if "r' \<in> set (rows ?f')" for r'
  proof -
    from that obtain r where r: "r \<in> set (rows f)" and e: "r' = r @ [?g r]"
      by (auto simp: append_column_columns)
    from append_column_cell(1) [OF w r k, of ?g] append_column_cell(2) [OF w r, of ?g] e c r
    show ?thesis by simp
  qed
  show ?thesis
    unfolding level_settled_def
    using cells t k by (simp add: ck' cn append_column_dtype)
qed

lemma append_column_numeric:
  assumes w: "wf_frame f" and c: "numeric_column nm f" and ne: "nm \<noteq> name"
  shows "numeric_column nm (append_column name d g f)"
proof (cases "col_index nm (columns f)")
  case None
  then have "col_index nm (columns (append_column name d g f)) = None"
    using ne by (simp add: append_column_index_other)
  then show ?thesis by (simp add: numeric_column_def)
next
  case (Some i)
  then have i: "i < length (columns f)" by (simp add: col_index_Some)
  from Some have ci: "col_index nm (columns (append_column name d g f)) = Some i"
    using ne by (simp add: append_column_index_other)
  from c Some have t: "is_number (snd (columns f ! i))"
    and q: "\<forall>r \<in> set (rows f). numeric_cell (r ! i)"
    by (simp_all add: numeric_column_def column_def list_all_iff)
  have "\<forall>r' \<in> set (rows (append_column name d g f)). numeric_cell (r' ! i)"
  proof
    fix r' assume "r' \<in> set (rows (append_column name d g f))"
    then obtain r where r: "r \<in> set (rows f)" and e: "r' = r @ [g r]"
      by (auto simp: append_column_columns)
    from append_column_cell(1) [OF w r i] e q r show "numeric_cell (r' ! i)" by simp
  qed
  with t i show ?thesis
    by (simp add: numeric_column_def ci append_column_dtype column_def list_all_iff)
qed

lemma append_column_no_missing_except:
  assumes w: "wf_frame f" and m: "no_missing_except nm f"
    and n: "is_number d \<and> name \<noteq> nm \<longrightarrow> (\<forall>r \<in> set (rows f). g r \<noteq> NA)"
  shows "no_missing_except nm (append_column name d g f)"
  unfolding no_missing_except_def
proof (intro allI impI ballI)
  fix i r'
  assume i: "i < length (columns (append_column name d g f))"
    and num: "is_number (snd (columns (append_column name d g f) ! i))
              \<and> fst (columns (append_column name d g f) ! i) \<noteq> nm"
    and r': "r' \<in> set (rows (append_column name d g f))"
  from r' obtain r where r: "r \<in> set (rows f)" and e: "r' = r @ [g r]"
    by (auto simp: append_column_columns)
  show "r' ! i \<noteq> NA"
  proof (cases "i < length (columns f)")
    case True
    with num have "is_number (snd (columns f ! i)) \<and> fst (columns f ! i) \<noteq> nm"
      by (simp add: append_column_dtype)
    with m True r have "r ! i \<noteq> NA" by (simp add: no_missing_except_def)
    with append_column_cell(1) [OF w r True] e show ?thesis by simp
  next
    case False
    with i have il: "i = length (columns f)" by (simp add: append_column_columns)
    with num have "is_number d \<and> name \<noteq> nm" by (simp add: append_column_dtype)
    with n r have "g r \<noteq> NA" by simp
    with append_column_cell(2) [OF w r] e il show ?thesis by simp
  qed
qed

lemma append_column_owned:
  assumes "ratio_owned f"
    and "name \<noteq> ''current_price''" "name \<noteq> ''base_price''" "name \<noteq> ''price_ratio''"
  shows "ratio_owned (append_column name d g f)"
  using assms by (simp add: ratio_owned_def append_column_index_other)

lemma present_numeric_column:
  assumes "present_numbers f" and "numeric_dtype nm f"
  shows "numeric_column nm f"
proof (cases "col_index nm (columns f)")
  case None
  then show ?thesis by (simp add: numeric_column_def)
next
  case (Some i)
  then have i: "i < length (columns f)" by (simp add: col_index_Some)
  from assms(2) Some have t: "is_number (snd (columns f ! i))" by (simp add: numeric_dtype_def)
  with assms(1) i have "\<forall>r \<in> set (rows f). \<exists>v. r ! i = Num v"
    by (simp add: present_numbers_def)
  then have "\<forall>r \<in> set (rows f). numeric_cell (r ! i)"
    by (auto simp: numeric_cell_def)
  with t Some show ?thesis by (simp add: numeric_column_def column_def list_all_iff)
qed

lemma present_no_missing: "present_numbers f \<Longrightarrow> no_missing f"
  by (fastforce simp: present_numbers_def no_missing_def)

lemma keep_positive_result:
  assumes w: "wf_frame f" and pr: "present_numbers f"
    and t: "numeric_dtype ''current_price'' f" and d: "distinct (rows f)"
  obtains f3 where "keep_positive f = Inr f3" and "columns f3 = columns f"
    and "set (rows f3) \<subseteq> set (rows f)" and "distinct (rows f3)" and "positive_prices f3"
proof (cases "col_index ''current_price'' (columns f)")
  case None
  then have "keep_positive f = Inr f" by (rule keep_positive_absent)
  moreover from None have "positive_prices f" by (simp add: positive_prices_def)
  ultimately show ?thesis using d that by blast
next
  case (Some i)
  from present_numeric_column [OF pr t] Some have n: "is_number (snd (columns f ! i))"
    and c: "\<forall>r \<in> set (rows f). numeric_cell (r ! i)"
    by (simp_all add: numeric_column_def column_def list_all_iff)
  let ?f3 = "f\<lparr>rows := filter (\<lambda>r. positive_cell (r ! i)) (rows f)\<rparr>"
  have k: "keep_positive f = Inr ?f3" by (rule keep_positive_numeric [OF Some n c])
  have p: "positive_prices ?f3" using Some n by (simp add: positive_prices_def)
  show ?thesis
    by (rule that [OF k _ _ _ p]) (use d in auto)
qed

lemma ratio_result:
  assumes w: "wf_frame f" and pr: "present_numbers f"
    and tc: "numeric_dtype ''current_price'' f" and tb: "numeric_dtype ''base_price'' f"
    and td: "numeric_dtype ''demand'' f"
    and new: "col_index ''price_ratio'' (columns f) = None"
    and newl: "col_index ''demand_level'' (columns f) = None"
    and p: "positive_prices f" and d: "distinct (rows f)"
  obtains f4 where "add_price_ratio f = Inr f4" and "wf_frame f4" and "distinct (rows f4)"
    and "no_missing_except ''price_ratio'' f4" and "positive_prices f4" and "ratio_settled f4"
    and "ratio_owned f4"
    and "numeric_column ''demand'' f4" and "col_index ''demand_level'' (columns f4) = None"
    and "finite_numbers f \<longrightarrow> no_missing f4"
proof (cases "col_index ''current_price'' (columns f) = None
              \<or> col_index ''base_price'' (columns f) = None")
  case True
  then have a: "add_price_ratio f = Inr f" by (rule add_price_ratio_absent)
  from True have r: "ratio_settled f" by (auto simp: ratio_settled_def split: option.splits)
  from new have o: "ratio_owned f" by (simp add: ratio_owned_def)
  from present_no_missing [OF pr] have fm: "finite_numbers f \<longrightarrow> no_missing f" by simp
  show ?thesis
    by (rule that [OF a w d no_missing_weaken [OF present_no_missing [OF pr]] p r o
          present_numeric_column [OF pr td] newl fm])
next
  case False
  then obtain i j where ci: "col_index ''current_price'' (columns f) = Some i"
    and cj: "col_index ''base_price'' (columns f) = Some j" by auto
  then have i: "i < length (columns f)" and j: "j < length (columns f)"
    by (simp_all add: col_index_Some)
  from tc tb ci cj have t: "is_number (snd (columns f ! i))" "is_number (snd (columns f ! j))"
    by (simp_all add: numeric_dtype_def)
  from pr t i j have "\<forall>r \<in> set (rows f). \<exists>v. r ! i = Num v"
    and "\<forall>r \<in> set (rows f). \<exists>v. r ! j = Num v"
    by (simp_all add: present_numbers_def)
  then have c: "\<forall>r \<in> set (rows f). numeric_cell (r ! i) \<and> numeric_cell (r ! j)"
    by (auto simp: numeric_cell_def)
  let ?g = "\<lambda>r. div_cell (r ! i) (r ! j)"
  let ?f4 = "append_column ''price_ratio'' Float64 ?g f"
  have a: "add_price_ratio f = Inr ?f4"
    using add_price_ratio_numeric [OF ci cj t c] assign_new [OF new, of Float64 ?g] by simp
  from p ci have pos: "\<forall>r \<in> set (rows f). positive_cell (r ! i)"
    by (simp add: positive_prices_def)
  have m: "no_missing_except ''price_ratio'' ?f4"
    by (rule append_column_no_missing_except
          [OF w no_missing_weaken [OF present_no_missing [OF pr]]]) simp
  have fm: "finite_numbers f \<longrightarrow> no_missing ?f4"
  proof
    assume fin: "finite_numbers f"
    from fin t i j have fi: "\<forall>r \<in> set (rows f). \<exists>x. r ! i = Num (Fin x)"
      and fj: "\<forall>r \<in> set (rows f). \<exists>x. r ! j = Num (Fin x)"
      by (simp_all add: finite_numbers_def)
    have nn: "?g r \<noteq> NA" if "r \<in> set (rows f)" for r
    proof -
      from fi fj that obtain x y where x: "r ! i = Num (Fin x)" and y: "r ! j = Num (Fin y)"
        by blast
      from pos that have "positive_cell (r ! i)" by blast
      with x have "0 < x" by (simp add: positive_cell_def gt0_def)
      then show ?thesis by (simp add: div_cell_def x y)
    qed
    show "no_missing ?f4"
      by (rule append_column_no_missing [OF w present_no_missing [OF pr]]) (simp add: nn)
  qed
  have o: "ratio_owned ?f4"
    using ci cj by (simp add: ratio_owned_def append_column_index_other)
  have l: "col_index ''demand_level'' (columns ?f4) = None"
    using newl by (simp add: append_column_index_other)
  have q: "numeric_column ''demand'' ?f4"
    by (rule append_column_numeric [OF w present_numeric_column [OF pr td]]) simp
  have p4: "positive_prices ?f4" by (rule append_column_positive [OF w p]) simp
  show ?thesis
    by (rule that [OF a append_column_wf [OF w new] append_column_distinct [OF d] m p4
          append_ratio_settled [OF w new ci cj t c] o q l fm])
qed

lemma level_result:
  assumes w: "wf_frame f" and d: "distinct (rows f)"
    and m: "no_missing_except ''price_ratio'' f"
    and p: "positive_prices f" and r: "ratio_settled f" and o: "ratio_owned f"
    and c: "numeric_column ''demand'' f"
    and new: "col_index ''demand_level'' (columns f) = None"
  obtains f5 where "add_demand_level f = Inr f5" and "settled f5"
    and "no_missing f \<longrightarrow> no_missing f5"
proof (cases "col_index ''demand'' (columns f)")
  case None
  then have a: "add_demand_level f = Inr f" by (rule add_demand_level_absent)
  from None have "level_settled f" by (simp add: level_settled_def)
  with w d m p r o have "settled f" by (simp add: settled_def)
  with a that show ?thesis by blast
next
  case (Some k)
  with c have t: "is_number (snd (columns f ! k))"
    and q: "\<forall>r \<in> set (rows f). numeric_cell (r ! k)"
    by (simp_all add: numeric_column_def column_def list_all_iff)
  let ?g = "\<lambda>r. level_cell (r ! k)"
  let ?f5 = "append_column ''demand_level'' Category ?g f"
  have a: "add_demand_level f = Inr ?f5"
    using add_demand_level_numeric [OF Some t q] assign_new [OF new, of Category ?g] by simp
  have "no_missing_except ''price_ratio'' ?f5"
    by (rule append_column_no_missing_except [OF w m]) (simp add: is_number_def)
  moreover have "positive_prices ?f5" by (rule append_column_positive [OF w p]) simp
  moreover have "ratio_settled ?f5" by (rule append_column_ratio [OF w r]) simp_all
  moreover have "ratio_owned ?f5" by (rule append_column_owned [OF o]) simp_all
  moreover have "level_settled ?f5" by (rule append_level_settled [OF w new Some t q])
  ultimately have s: "settled ?f5"
    using append_column_wf [OF w new] append_column_distinct [OF d]
    by (simp add: settled_def)
  have n: "no_missing f \<longrightarrow> no_missing ?f5"
  proof
    assume "no_missing f"
    then show "no_missing ?f5"
      by (rule append_column_no_missing [OF w]) (simp add: is_number_def)
  qed
  from a s n that show ?thesis by blast
qed

lemma subframe:
  assumes "columns g = columns f" and "set (rows g) \<subseteq> set (rows f)"
  shows "wf_frame f \<Longrightarrow> wf_frame g" and "present_numbers f \<Longrightarrow> present_numbers g"
    and "finite_numbers f \<Longrightarrow> finite_numbers g"
  using assms by (auto simp: wf_frame_def present_numbers_def finite_numbers_def)

lemma numeric_dtype_columns:
  "columns g = columns f \<Longrightarrow> numeric_dtype nm f \<Longrightarrow> numeric_dtype nm g"
  by (simp add: numeric_dtype_def split: option.splits)

lemma transform_settles:
  assumes "record_set f"
  obtains g where "transform_steps f = Inr g" and "settled g"
    and "finite_numbers f \<longrightarrow> no_missing g"
proof -
  from assms have w: "wf_frame f" and pr: "present_numbers f"
    and new: "col_index ''price_ratio'' (columns f) = None"
    and newl: "col_index ''demand_level'' (columns f) = None"
    and tc: "numeric_dtype ''current_price'' f" and tb: "numeric_dtype ''base_price'' f"
    and td: "numeric_dtype ''demand'' f"
    by (simp_all add: record_set_def)
  let ?f1 = "drop_duplicates f"
  have c1: "columns ?f1 = columns f" and s1: "set (rows ?f1) \<subseteq> set (rows f)"
    and d1: "distinct (rows ?f1)"
    by (simp_all add: drop_duplicates_rows)
  have w1: "wf_frame ?f1" and pr1: "present_numbers ?f1"
    using subframe(1,2) [OF c1 s1] w pr by blast+
  have fin1: "finite_numbers f \<Longrightarrow> finite_numbers ?f1"
    by (rule subframe(3) [OF c1 s1])
  have n1: "fillna_median ?f1 = ?f1"
    by (rule fillna_median_id [OF w1 present_no_missing [OF pr1]])
  from keep_positive_result [OF w1 pr1 numeric_dtype_columns [OF c1 tc] d1]
  obtain f3 where k: "keep_positive ?f1 = Inr f3" and c3: "columns f3 = columns ?f1"
    and s3: "set (rows f3) \<subseteq> set (rows ?f1)" and d3: "distinct (rows f3)"
    and p3: "positive_prices f3" by blast
  have w3: "wf_frame f3" and pr3: "present_numbers f3"
    using subframe(1,2) [OF c3 s3] w1 pr1 by blast+
  have fin3: "finite_numbers f \<Longrightarrow> finite_numbers f3"
    using subframe(3) [OF c3 s3] fin1 by blast
  have c3': "columns f3 = columns f" using c3 c1 by simp
  from ratio_result [OF w3 pr3 numeric_dtype_columns [OF c3' tc]
      numeric_dtype_columns [OF c3' tb] numeric_dtype_columns [OF c3' td] _ _ p3 d3]
    new newl c3'
  obtain f4 where a4: "add_price_ratio f3 = Inr f4" and w4: "wf_frame f4"
    and d4: "distinct (rows f4)" and m4: "no_missing_except ''price_ratio'' f4"
    and p4: "positive_prices f4"
    and r4: "ratio_settled f4" and o4: "ratio_owned f4"
    and q4: "numeric_column ''demand'' f4"
    and l4: "col_index ''demand_level'' (columns f4) = None"
    and n4: "finite_numbers f3 \<longrightarrow> no_missing f4"
    by auto
  from level_result [OF w4 d4 m4 p4 r4 o4 q4 l4]
  obtain f5 where a5: "add_demand_level f4 = Inr f5" and s5: "settled f5"
    and n5: "no_missing f4 \<longrightarrow> no_missing f5" by blast
  have t: "transform_steps f = Inr f5"
    by (simp add: transform_steps_def n1 k a4 a5)
  from fin3 n4 n5 have "finite_numbers f \<longrightarrow> no_missing f5" by blast
  with t s5 that show ?thesis by blast
qed

text \<open>
  C5 (counterexamples). Two records that differ only in that one has no \<open>demand\<close>: the
  median of the column is the demand of the other record, the filled record becomes an
  exact duplicate of it, and both are in the output of one transformation. A second
  transformation drops one of them. And a record with no missing value, whose
  \<open>current_price\<close> and \<open>base_price\<close> are both infinite: its \<open>price_ratio\<close> is not a number,
  a missing value in a numeric column of the output.
\<close>

theorem transform_twice_differs:
  "fst (transform_data
         \<lparr>columns = [(''current_price'', Float64), (''demand'', Float64)],
          rows = [[Num (Fin 5), Num (Fin 100)], [Num (Fin 5), NA]]\<rparr>)
     = \<lparr>columns = [(''current_price'', Float64), (''demand'', Float64), (''demand_level'', Category)],
        rows = [[Num (Fin 5), Num (Fin 100), Cat ''low''], [Num (Fin 5), Num (Fin 100), Cat ''low'']]\<rparr>
   \<and> fst (transform_data (fst (transform_data
         \<lparr>columns = [(''current_price'', Float64), (''demand'', Float64)],
          rows = [[Num (Fin 5), Num (Fin 100)], [Num (Fin 5), NA]]\<rparr>)))
     = \<lparr>columns = [(''current_price'', Float64), (''demand'', Float64), (''demand_level'', Category)],
        rows = [[Num (Fin 5), Num (Fin 100), Cat ''low'']]\<rparr>
   \<and> fst (transform_data
         \<lparr>columns = [(''current_price'', Float64), (''base_price'', Float64)],
          rows = [[Num PInf, Num PInf]]\<rparr>)
     = \<lparr>columns = [(''current_price'', Float64), (''base_price'', Float64), (''price_ratio'', Float64)],
        rows = [[Num PInf, Num PInf, NA]]\<rparr>"
  by code_simp

text \<open>
  C5 (amended). On a record set in which no numeric value is missing the transformation
  succeeds, applying it twice gives the same frame as applying it once, and the output
  has no two equal rows, no \<open>current_price\<close> at or below 0 and no missing value in a
  numeric column other than \<open>price_ratio\<close>. When every numeric value of the input is
  finite, no \<open>price_ratio\<close> is missing either.
\<close>

theorem transform_idempotent:
  assumes "record_set f"
  shows "fst (transform_data (fst (transform_data f))) = fst (transform_data f)
       \<and> snd (transform_data f) = [(INFO, ''Transformed data'')]
       \<and> distinct (rows (fst (transform_data f)))
       \<and> (\<forall>i. col_index ''current_price'' (columns (fst (transform_data f))) = Some i \<longrightarrow>
             (\<forall>r \<in> set (rows (fst (transform_data f))). \<exists>v. r ! i = Num v \<and> gt0 v))
       \<and> no_missing_except ''price_ratio'' (fst (transform_data f))
       \<and> (finite_numbers f \<longrightarrow> no_missing (fst (transform_data f)))"
proof -
  from assms obtain g where t: "transform_steps f = Inr g" and s: "settled g"
    and fm: "finite_numbers f \<longrightarrow> no_missing g"
    by (rule transform_settles)
  from t have g: "transform_data f = (g, [(INFO, ''Transformed data'')])"
    by (simp add: transform_data_def)
  from settled_fixpoint [OF s] have "transform_data g = (g, [(INFO, ''Transformed data'')])"
    by (simp add: transform_data_def)
  with g have a: "fst (transform_data (fst (transform_data f))) = fst (transform_data f)"
    by simp
  from s have d: "distinct (rows g)" and m: "no_missing_except ''price_ratio'' g"
    and p: "positive_prices g"
    by (simp_all add: settled_def)
  have "\<exists>v. r ! i = Num v \<and> gt0 v"
    if "col_index ''current_price'' (columns g) = Some i" and "r \<in> set (rows g)" for i r
  proof -
    from p that have "positive_cell (r ! i)" by (simp add: positive_prices_def)
    then show ?thesis by (cases "r ! i") (simp_all add: positive_cell_def)
  qed
  with a d m fm g show ?thesis by simp
qed

theorem transform_idempotent_witness:
  "record_set
     \<lparr>columns = [(''current_price'', Float64), (''base_price'', Float64), (''demand'', Int64)],
      rows = [[Num (Fin 5), Num (Fin 2), Num (Fin 100)], [Num (Fin 5), Num (Fin 2), Num (Fin 100)],
              [Num (Fin (- 1)), Num (Fin 2), Num (Fin 7)], [Num (Fin 8), Num (Fin 0), Num (Fin 500)]]\<rparr>
   \<and> finite_numbers
     \<lparr>columns = [(''current_price'', Float64), (''base_price'', Float64), (''demand'', Int64)],
      rows = [[Num (Fin 5), Num (Fin 2), Num (Fin 100)], [Num (Fin 5), Num (Fin 2), Num (Fin 100)],
              [Num (Fin (- 1)), Num (Fin 2), Num (Fin 7)], [Num (Fin 8), Num (Fin 0), Num (Fin 500)]]\<rparr>
   \<and> fst (transform_data
     \<lparr>columns = [(''current_price'', Float64), (''base_price'', Float64), (''demand'', Int64)],
      rows = [[Num (Fin 5), Num (Fin 2), Num (Fin 100)], [Num (Fin 5), Num (Fin 2), Num (Fin 100)],
              [Num (Fin (- 1)), Num (Fin 2), Num (Fin 7)], [Num (Fin 8), Num (Fin 0), Num (Fin 500)]]\<rparr>)
     = \<lparr>columns = [(''current_price'', Float64), (''base_price'', Float64), (''demand'', Int64),
                   (''price_ratio'', Float64), (''demand_level'', Category)],
        rows = [[Num (Fin 5), Num (Fin 2), Num (Fin 100), Num (Fin (5 / 2)), Cat ''low''],
                [Num (Fin 8), Num (Fin 0), Num (Fin 500), Num PInf, Cat ''high'']]\<rparr>
   \<and> fst (transform_data
       \<lparr>columns = [(''current_price'', Float64), (''base_price'', Float64), (''demand'', Int64),
                   (''price_ratio'', Float64), (''demand_level'', Category)],
        rows = [[Num (Fin 5), Num (Fin 2), Num (Fin 100), Num (Fin (5 / 2)), Cat ''low''],
                [Num (Fin 8), Num (Fin 0), Num (Fin 500), Num PInf, Cat ''high'']]\<rparr>)
     = \<lparr>columns = [(''current_price'', Float64), (''base_price'', Float64), (''demand'', Int64),
                   (''price_ratio'', Float64), (''demand_level'', Category)],
        rows = [[Num (Fin 5), Num (Fin 2), Num (Fin 100), Num (Fin (5 / 2)), Cat ''low''],
                [Num (Fin 8), Num (Fin 0), Num (Fin 500), Num PInf, Cat ''high'']]\<rparr>
   \<and> no_missing
       \<lparr>columns = [(''current_price'', Float64), (''base_price'', Float64), (''demand'', Int64),
                   (''price_ratio'', Float64), (''demand_level'', Category)],
        rows = [[Num (Fin 5), Num (Fin 2), Num (Fin 100), Num (Fin (5 / 2)), Cat ''low''],
                [Num (Fin 8), Num (Fin 0), Num (Fin 500), Num PInf, Cat ''high'']]\<rparr>"
proof -
  let ?F = "\<lparr>columns = [(''current_price'', Float64), (''base_price'', Float64), (''demand'', Int64)],
      rows = [[Num (Fin 5), Num (Fin 2), Num (Fin 100)], [Num (Fin 5), Num (Fin 2), Num (Fin 100)],
              [Num (Fin (- 1)), Num (Fin 2), Num (Fin 7)], [Num (Fin 8), Num (Fin 0), Num (Fin 500)]]\<rparr>"
  have fin: "finite_numbers ?F"
    by (auto simp: finite_numbers_def less_Suc_eq numeral_3_eq_3)
  have pr: "present_numbers ?F"
    by (auto simp: present_numbers_def less_Suc_eq numeral_3_eq_3)
  have rs: "record_set ?F"
    using pr by (simp add: record_set_def wf_frame_def numeric_dtype_def is_number_def)
  have e: "fst (transform_data ?F)
     = \<lparr>columns = [(''current_price'', Float64), (''base_price'', Float64), (''demand'', Int64),
                   (''price_ratio'', Float64), (''demand_level'', Category)],
        rows = [[Num (Fin 5), Num (Fin 2), Num (Fin 100), Num (Fin (5 / 2)), Cat ''low''],
                [Num (Fin 8), Num (Fin 0), Num (Fin 500), Num PInf, Cat ''high'']]\<rparr>"
    by code_simp
  from transform_idempotent [OF rs] fin
  have "fst (transform_data (fst (transform_data ?F))) = fst (transform_data ?F)"
    and "no_missing (fst (transform_data ?F))" by blast+
  with rs fin e show ?thesis by simp
qed

end
